theory Spec2Isabelle
  imports Main "HOL-Library.Word" "HOL-Library.Multiset"
begin

section \<open>The CronJob controller of controllers/cronjob\_controller.go\<close>

text \<open>
  A shallow embedding of \<^verbatim>\<open>CronJobReconciler.Reconcile\<close> and of the two closures it
  declares, \<^verbatim>\<open>getNextSchedule\<close> and \<^verbatim>\<open>constructJobForCronJob\<close>.

  Conventions.
  \<^item> A \<^verbatim>\<open>time.Time\<close> is the instant it denotes, in nanoseconds since the Unix epoch,
    as an unbounded integer (location and monotonic reading play no part in \<^verbatim>\<open>After\<close>,
    \<^verbatim>\<open>Before\<close>, \<^verbatim>\<open>Unix\<close> or \<^verbatim>\<open>IsZero\<close> of the wall-clock times the controller handles).
  \<^item> A \<^verbatim>\<open>time.Duration\<close> is an \<^verbatim>\<open>int64\<close> of nanoseconds: a 64-bit word, read
    with \<open>sint\<close>; its multiplication wraps.
  \<^item> \<^verbatim>\<open>*int64\<close>, \<^verbatim>\<open>*int32\<close>, \<^verbatim>\<open>*bool\<close> and \<^verbatim>\<open>*metav1.Time\<close> are options.
  \<^item> A Go \<^verbatim>\<open>error\<close> is a value of the datatype \<open>error\<close>; a function that returns
    \<^verbatim>\<open>(x, err)\<close> returns \<open>error + 'a\<close>, with \<open>Inl\<close> for the error.
  \<^item> Log calls are left out: they decide no branch and make no store call.
\<close>

subsection \<open>Times and durations\<close>

type_synonym Time = int

type_synonym Duration = "64 word"

definition Second :: Duration where
  "Second = 1000000000"

text \<open>\<^verbatim>\<open>time.Time{}\<close>: January 1 of year 1, 00:00:00 UTC.\<close>

definition zeroTime :: Time where
  "zeroTime = - 62135596800 * 1000000000"

definition IsZero :: "Time \<Rightarrow> bool" where
  "IsZero t = (t = zeroTime)"

definition After :: "Time \<Rightarrow> Time \<Rightarrow> bool" where
  "After t u = (u < t)"

definition Before :: "Time \<Rightarrow> Time \<Rightarrow> bool" where
  "Before t u = (t < u)"

definition Add :: "Time \<Rightarrow> Duration \<Rightarrow> Time" where
  "Add t d = t + sint d"

text \<open>\<^verbatim>\<open>t.Sub(u)\<close> saturates at the smallest and the largest \<^verbatim>\<open>Duration\<close>.\<close>

definition Sub :: "Time \<Rightarrow> Time \<Rightarrow> Duration" where
  "Sub t u =
     (if - (2 ^ 63) \<le> t - u \<and> t - u < 2 ^ 63 then word_of_int (t - u)
      else if Before t u then word_of_int (- (2 ^ 63))
      else word_of_int (2 ^ 63 - 1))"

text \<open>\<^verbatim>\<open>t.Unix()\<close>: whole seconds since the epoch, rounded down.\<close>

definition Unix :: "Time \<Rightarrow> int" where
  "Unix t = t div 1000000000"

subsection \<open>Errors\<close>

datatype error =
    NotFound
  | Failure string
  | UnparseableSchedule string error
  | TooManyMissedStarts

text \<open>\<^verbatim>\<open>client.IgnoreNotFound\<close>.\<close>

definition IgnoreNotFound :: "error option \<Rightarrow> error option" where
  "IgnoreNotFound e = (if e = Some NotFound then None else e)"

subsection \<open>Objects\<close>

record ObjectReference =
  RefKind :: string
  RefNamespace :: string
  RefName :: string

record OwnerReference =
  OwnerAPIVersion :: string
  OwnerKind :: string
  OwnerName :: string
  Controller :: bool

text \<open>A \<^verbatim>\<open>kbatch.Job\<close>, with the fields the controller reads or writes. The job spec is
  opaque and copied as it is.\<close>

record Job =
  JobName :: string
  JobNamespace :: string
  JobLabels :: "string \<rightharpoonup> string"
  JobAnnotations :: "string \<rightharpoonup> string"
  JobOwnerReferences :: "OwnerReference list"
  JobSpec :: string
  StartTime :: "Time option"
  Conditions :: "(string \<times> string) list"

record JobTemplateSpec =
  TemplateLabels :: "string \<rightharpoonup> string"
  TemplateAnnotations :: "string \<rightharpoonup> string"
  TemplateSpec :: string

type_synonym ConcurrencyPolicy = string

definition AllowConcurrent :: ConcurrencyPolicy where
  "AllowConcurrent = ''Allow''"

definition ForbidConcurrent :: ConcurrencyPolicy where
  "ForbidConcurrent = ''Forbid''"

definition ReplaceConcurrent :: ConcurrencyPolicy where
  "ReplaceConcurrent = ''Replace''"

record CronJobSpec =
  Schedule :: string
  StartingDeadlineSeconds :: "64 word option"
  ConcurrencyPolicy :: ConcurrencyPolicy
  Suspend :: "bool option"
  JobTemplate :: JobTemplateSpec
  SuccessfulJobsHistoryLimit :: "32 word option"
  FailedJobsHistoryLimit :: "32 word option"

record CronJobStatus =
  Active :: "ObjectReference list"
  LastScheduleTime :: "Time option"

record CronJob =
  Name :: string
  Namespace :: string
  CreationTimestamp :: Time
  Spec :: CronJobSpec
  Status :: CronJobStatus

subsection \<open>Functions of imported packages\<close>

text \<open>
  The controller calls functions that this repository does not define: the cron parser
  (\<^verbatim>\<open>cron.ParseStandard\<close>, whose schedule offers \<^verbatim>\<open>Next\<close>), \<^verbatim>\<open>time.Format\<close>,
  \<^verbatim>\<open>sort.Slice\<close>, \<^verbatim>\<open>ref.GetReference\<close>, the scheme lookup of
  \<^verbatim>\<open>ctrl.SetControllerReference\<close>, and the two helpers \<^verbatim>\<open>isJobFinished\<close> and
  \<^verbatim>\<open>getScheduledTimeForJob\<close>, which the source names in a comment and calls but does not
  contain. They are parameters of the model: a schedule is its \<^verbatim>\<open>Next\<close> function.
\<close>

record Library =
  ParseStandard :: "string \<Rightarrow> error + (Time \<Rightarrow> Time)"
  FormatRFC3339 :: "Time \<Rightarrow> string"
  SortSlice :: "(Job \<Rightarrow> Job \<Rightarrow> bool) \<Rightarrow> Job list \<Rightarrow> Job list"
  GetReference :: "Job \<Rightarrow> error + ObjectReference"
  GVKForObject :: "CronJob \<Rightarrow> error + (string \<times> string)"
  isJobFinished :: "Job \<Rightarrow> bool \<times> string"
  getScheduledTimeForJob :: "Job \<Rightarrow> error + Time option"

subsection \<open>getNextSchedule\<close>

text \<open>Lines 198 to 203: the last observed run, else the creation time.\<close>

definition boundTime :: "CronJob \<Rightarrow> Time" where
  "boundTime cronJob =
     (case LastScheduleTime (Status cronJob) of
        Some t \<Rightarrow> t
      | None \<Rightarrow> CreationTimestamp cronJob)"

text \<open>Lines 204 to 211: the bound, raised to the scheduling deadline when a deadline is
  set. The product \<^verbatim>\<open>-time.Second * time.Duration(d)\<close> is a 64-bit product.\<close>

definition earliestTime :: "CronJob \<Rightarrow> Time \<Rightarrow> Time" where
  "earliestTime cronJob now =
     (case StartingDeadlineSeconds (Spec cronJob) of
        None \<Rightarrow> boundTime cronJob
      | Some d \<Rightarrow>
          (let schedulingDeadline = Add now (- Second * d)
           in if After schedulingDeadline (boundTime cronJob) then schedulingDeadline
              else boundTime cronJob))"

text \<open>The loop of lines 216 to 238: \<open>t\<close> is the loop variable, \<open>lastMissed\<close> the named
  result, \<open>starts\<close> the counter.\<close>

function missedStarts :: "(Time \<Rightarrow> Time) \<Rightarrow> Time \<Rightarrow> Time \<Rightarrow> Time \<Rightarrow> nat \<Rightarrow> error + Time" where
  "missedStarts sched now t lastMissed starts =
     (if \<not> After t now then
        (if starts + 1 > 100 then Inl TooManyMissedStarts
         else missedStarts sched now (sched t) t (starts + 1))
      else Inr lastMissed)"
  by pat_completeness auto
termination
  by (relation "measure (\<lambda>(sched, now, t, lastMissed, starts). 100 - starts)") auto

declare missedStarts.simps [simp del]

definition getNextSchedule :: "Library \<Rightarrow> CronJob \<Rightarrow> Time \<Rightarrow> error + (Time \<times> Time)" where
  "getNextSchedule lib cronJob now =
     (case ParseStandard lib (Schedule (Spec cronJob)) of
        Inl e \<Rightarrow> Inl (UnparseableSchedule (Schedule (Spec cronJob)) e)
      | Inr sched \<Rightarrow>
          if After (earliestTime cronJob now) now then Inr (zeroTime, sched now)
          else
            (case missedStarts sched now (sched (earliestTime cronJob now)) zeroTime 0 of
               Inl e \<Rightarrow> Inl e
             | Inr lastMissed \<Rightarrow> Inr (lastMissed, sched now)))"

subsection \<open>constructJobForCronJob\<close>

definition scheduledTimeAnnotation :: string where
  "scheduledTimeAnnotation = ''batch.tutorial.kubebuilder.io/scheduled-at''"

text \<open>The verb \<^verbatim>\<open>%d\<close> of \<^verbatim>\<open>fmt.Sprintf\<close>: decimal digits, with a minus sign for a
  negative number.\<close>

definition digitChar :: "nat \<Rightarrow> char" where
  "digitChar d = char_of (48 + d)"

fun decNat :: "nat \<Rightarrow> string" where
  "decNat n = (if n < 10 then [digitChar n] else decNat (n div 10) @ [digitChar (n mod 10)])"

declare decNat.simps [simp del]

definition formatInt :: "int \<Rightarrow> string" where
  "formatInt i = (if i < 0 then CHR ''-'' # decNat (nat (- i)) else decNat (nat i))"

text \<open>Modelled from the spec: \<^verbatim>\<open>ctrl.SetControllerReference(cronJob, job, r.Scheme)\<close>,
  a function of the controller-runtime package that line 307 calls. The Constructor
  "sets an owner link from child to parent" and "fails only if the owner-link assignment
  fails (e.g., type-registry lookup error)": on a job that has no controller reference
  yet, as the job built at lines 291 to 299, the scheme lookup of the owner's group,
  version and kind may fail, and nothing else does.\<close>

definition SetControllerReference :: "Library \<Rightarrow> CronJob \<Rightarrow> Job \<Rightarrow> error + Job" where
  "SetControllerReference lib owner job =
     (case GVKForObject lib owner of
        Inl e \<Rightarrow> Inl e
      | Inr (apiVersion, kind) \<Rightarrow>
          Inr (job\<lparr>JobOwnerReferences := JobOwnerReferences job @
                 [\<lparr>OwnerAPIVersion = apiVersion, OwnerKind = kind,
                   OwnerName = Name owner, Controller = True\<rparr>]\<rparr>))"

text \<open>Lines 287 to 312. The two \<^verbatim>\<open>range\<close> loops copy the template's maps into the
  empty maps of the new job; the scheduled-time annotation is stored after the first.\<close>

definition constructJobForCronJob :: "Library \<Rightarrow> CronJob \<Rightarrow> Time \<Rightarrow> error + Job" where
  "constructJobForCronJob lib cronJob scheduledTime =
     (let name = Name cronJob @ ''-'' @ formatInt (Unix scheduledTime);
          job0 = \<lparr>JobName = name, JobNamespace = Namespace cronJob,
                  JobLabels = Map.empty, JobAnnotations = Map.empty,
                  JobOwnerReferences = [],
                  JobSpec = TemplateSpec (JobTemplate (Spec cronJob)),
                  StartTime = None, Conditions = []\<rparr>;
          job1 = job0\<lparr>JobAnnotations :=
                   JobAnnotations job0 ++ TemplateAnnotations (JobTemplate (Spec cronJob))\<rparr>;
          job2 = job1\<lparr>JobAnnotations :=
                   (JobAnnotations job1)(scheduledTimeAnnotation \<mapsto>
                      FormatRFC3339 lib scheduledTime)\<rparr>;
          job3 = job2\<lparr>JobLabels :=
                   JobLabels job2 ++ TemplateLabels (JobTemplate (Spec cronJob))\<rparr>
      in SetControllerReference lib cronJob job3)"

subsection \<open>The reconciler and its calls\<close>

record Request =
  ReqNamespace :: string
  ReqName :: string

record Result =
  Requeue :: bool
  RequeueAfter :: Duration

text \<open>\<^verbatim>\<open>ctrl.Result{}\<close>.\<close>

definition emptyResult :: Result where
  "emptyResult = \<lparr>Requeue = False, RequeueAfter = 0\<rparr>"

text \<open>
  The store client and the clock of \<^verbatim>\<open>CronJobReconciler\<close> act on the world outside the
  controller, of type \<open>'w\<close>: each call takes the world and returns its answer and the
  world after it. \<open>rList ns owner\<close> is \<^verbatim>\<open>r.List\<close> in namespace \<open>ns\<close> with the owner
  index equal to \<open>owner\<close>; \<open>rStatusUpdate\<close> is \<^verbatim>\<open>r.Status().Update\<close>, whose answer is
  taken to leave the object in hand as it was sent.
\<close>

record 'w Reconciler =
  rGet :: "Request \<Rightarrow> 'w \<Rightarrow> (error + CronJob) \<times> 'w"
  rList :: "string \<Rightarrow> string \<Rightarrow> 'w \<Rightarrow> (error + Job list) \<times> 'w"
  rStatusUpdate :: "CronJob \<Rightarrow> 'w \<Rightarrow> error option \<times> 'w"
  rDelete :: "Job \<Rightarrow> 'w \<Rightarrow> error option \<times> 'w"
  rCreate :: "Job \<Rightarrow> 'w \<Rightarrow> error option \<times> 'w"
  rNow :: "'w \<Rightarrow> Time \<times> 'w"

text \<open>What one pass does to the outside, in order: every store call, and every call of
  the job constructor. A delete call is recorded with the answer it got.\<close>

datatype Call =
    GetCall Request
  | ListCall string string
  | StatusUpdateCall CronJob
  | DeleteCall Job "error option"
  | ConstructCall Time
  | CreateCall Job

text \<open>The pair \<^verbatim>\<open>(ctrl.Result, error)\<close> that \<^verbatim>\<open>Reconcile\<close> returns, with the world it
  leaves and the calls it made.\<close>

record 'w Outcome =
  outResult :: Result
  outError :: "error option"
  outWorld :: 'w
  outCalls :: "Call list"

subsection \<open>Classifying the child jobs\<close>

definition JobComplete :: string where
  "JobComplete = ''Complete''"

definition JobFailed :: string where
  "JobFailed = ''Failed''"

record Classified =
  activeJobs :: "Job list"
  successfulJobs :: "Job list"
  failedJobs :: "Job list"
  mostRecentTime :: "Time option"

text \<open>One round of the loop of lines 98 to 123.\<close>

definition classifyJob :: "Library \<Rightarrow> Classified \<Rightarrow> Job \<Rightarrow> Classified" where
  "classifyJob lib c job =
     (let finishedType = snd (isJobFinished lib job);
          c1 = (if finishedType = [] then c\<lparr>activeJobs := activeJobs c @ [job]\<rparr>
                else if finishedType = JobFailed then c\<lparr>failedJobs := failedJobs c @ [job]\<rparr>
                else if finishedType = JobComplete
                  then c\<lparr>successfulJobs := successfulJobs c @ [job]\<rparr>
                else c)
      in case getScheduledTimeForJob lib job of
           Inl e \<Rightarrow> c1
         | Inr None \<Rightarrow> c1
         | Inr (Some scheduledTimeForJob) \<Rightarrow>
             (case mostRecentTime c1 of
                None \<Rightarrow> c1\<lparr>mostRecentTime := Some scheduledTimeForJob\<rparr>
              | Some m \<Rightarrow>
                  if Before m scheduledTimeForJob
                  then c1\<lparr>mostRecentTime := Some scheduledTimeForJob\<rparr>
                  else c1))"

definition classify :: "Library \<Rightarrow> Job list \<Rightarrow> Classified" where
  "classify lib childJobs =
     foldl (classifyJob lib)
       \<lparr>activeJobs = [], successfulJobs = [], failedJobs = [], mostRecentTime = None\<rparr>
       childJobs"

text \<open>Lines 130 to 138: a job whose reference cannot be made is left out.\<close>

fun activeReferences :: "Library \<Rightarrow> Job list \<Rightarrow> ObjectReference list" where
  "activeReferences lib [] = []"
| "activeReferences lib (activeJob # rest) =
     (case GetReference lib activeJob of
        Inl e \<Rightarrow> activeReferences lib rest
      | Inr jobRef \<Rightarrow> jobRef # activeReferences lib rest)"

text \<open>Lines 125 to 138: the status that is sent to the store.\<close>

definition withStatus :: "Library \<Rightarrow> CronJob \<Rightarrow> Classified \<Rightarrow> CronJob" where
  "withStatus lib cronJob c =
     cronJob\<lparr>Status := \<lparr>Active = activeReferences lib (activeJobs c),
                         LastScheduleTime = mostRecentTime c\<rparr>\<rparr>"

subsection \<open>Pruning the history\<close>

text \<open>\<^verbatim>\<open>metav1.Time.Before\<close> on two pointers: false when either is nil.\<close>

definition BeforePtr :: "Time option \<Rightarrow> Time option \<Rightarrow> bool" where
  "BeforePtr t u =
     (case t of None \<Rightarrow> False
      | Some t' \<Rightarrow> (case u of None \<Rightarrow> False | Some u' \<Rightarrow> Before t' u'))"

text \<open>The \<^verbatim>\<open>less\<close> function given to \<^verbatim>\<open>sort.Slice\<close> at lines 148 and 167.\<close>

definition startTimeLess :: "Job \<Rightarrow> Job \<Rightarrow> bool" where
  "startTimeLess a b =
     (if StartTime a = None then StartTime b \<noteq> None
      else BeforePtr (StartTime a) (StartTime b))"

text \<open>The loops of lines 154 and 173 over the sorted jobs: \<open>n\<close> is their number, \<open>i\<close> the
  index, both converted to \<^verbatim>\<open>int32\<close> for the comparison with the limit. The answer of
  \<^verbatim>\<open>r.Delete\<close> is only logged.\<close>

fun deleteOld :: "'w Reconciler \<Rightarrow> 32 word \<Rightarrow> nat \<Rightarrow> nat \<Rightarrow> Job list \<Rightarrow> 'w \<Rightarrow> 'w \<times> Call list" where
  "deleteOld r limit n i [] w = (w, [])"
| "deleteOld r limit n i (job # rest) w =
     (if word_of_nat n - limit \<le>s word_of_nat i then (w, [])
      else
        (let (e, w1) = rDelete r job w;
             (w2, cs) = deleteOld r limit n (i + 1) rest w1
         in (w2, DeleteCall job e # cs)))"

definition pruneHistory ::
  "Library \<Rightarrow> 'w Reconciler \<Rightarrow> 32 word option \<Rightarrow> Job list \<Rightarrow> 'w \<Rightarrow> 'w \<times> Call list" where
  "pruneHistory lib r historyLimit jobs w =
     (case historyLimit of
        None \<Rightarrow> (w, [])
      | Some limit \<Rightarrow>
          (let sorted = SortSlice lib startTimeLess jobs
           in deleteOld r limit (length sorted) 0 sorted w))"

subsection \<open>Reconcile\<close>

text \<open>Lines 279 to 285: the first answer of \<^verbatim>\<open>r.Delete\<close> that is an error other than
  not-found ends the loop and the pass.\<close>

fun deleteActive :: "'w Reconciler \<Rightarrow> Job list \<Rightarrow> 'w \<Rightarrow> error option \<times> 'w \<times> Call list" where
  "deleteActive r [] w = (None, w, [])"
| "deleteActive r (activeJob # rest) w =
     (let (e, w1) = rDelete r activeJob w
      in if IgnoreNotFound e \<noteq> None then (e, w1, [DeleteCall activeJob e])
         else
           (let (e', w2, cs) = deleteActive r rest w1
            in (e', w2, DeleteCall activeJob e # cs)))"

text \<open>Lines 261 to 264: the clock is read only when a deadline is set.\<close>

definition tooLate :: "'w Reconciler \<Rightarrow> CronJob \<Rightarrow> Time \<Rightarrow> 'w \<Rightarrow> bool \<times> 'w" where
  "tooLate r cronJob missedRun w =
     (case StartingDeadlineSeconds (Spec cronJob) of
        None \<Rightarrow> (False, w)
      | Some d \<Rightarrow>
          (let (now4, w4) = rNow r w
           in (Before (Add missedRun (d * Second)) now4, w4)))"

text \<open>Lines 270 to 330: the concurrency policy, the construction of the job and its
  creation.\<close>

definition startJob ::
  "Library \<Rightarrow> 'w Reconciler \<Rightarrow> CronJob \<Rightarrow> Job list \<Rightarrow> Time \<Rightarrow> Result \<Rightarrow> 'w \<Rightarrow> 'w Outcome" where
  "startJob lib r cronJob active missedRun scheduledResult w =
     (if ConcurrencyPolicy (Spec cronJob) = ForbidConcurrent \<and> length active > 0 then
        \<lparr>outResult = scheduledResult, outError = None, outWorld = w, outCalls = []\<rparr>
      else
        (let (e, w5, deletes) =
               (if ConcurrencyPolicy (Spec cronJob) = ReplaceConcurrent
                then deleteActive r active w
                else (None, w, []))
         in case e of
              Some e' \<Rightarrow>
                \<lparr>outResult = emptyResult, outError = Some e', outWorld = w5,
                  outCalls = deletes\<rparr>
            | None \<Rightarrow>
                (case constructJobForCronJob lib cronJob missedRun of
                   Inl ce \<Rightarrow>
                     \<lparr>outResult = scheduledResult, outError = None, outWorld = w5,
                       outCalls = deletes @ [ConstructCall missedRun]\<rparr>
                 | Inr job \<Rightarrow>
                     (case rCreate r job w5 of
                        (Some ce, w6) \<Rightarrow>
                          \<lparr>outResult = emptyResult, outError = Some ce, outWorld = w6,
                            outCalls = deletes @ [ConstructCall missedRun, CreateCall job]\<rparr>
                      | (None, w6) \<Rightarrow>
                          \<lparr>outResult = scheduledResult, outError = None, outWorld = w6,
                            outCalls = deletes @ [ConstructCall missedRun, CreateCall job]\<rparr>))))"

text \<open>Lines 189 to 269, after the suspend check: the clock is read for the schedule, for
  the requeue delay, for the logger and, in \<open>tooLate\<close>, for the deadline check.\<close>

definition scheduleJob ::
  "Library \<Rightarrow> 'w Reconciler \<Rightarrow> CronJob \<Rightarrow> Job list \<Rightarrow> 'w \<Rightarrow> 'w Outcome" where
  "scheduleJob lib r cronJob active w =
     (let (now1, w1) = rNow r w
      in case getNextSchedule lib cronJob now1 of
           Inl e \<Rightarrow>
             \<lparr>outResult = emptyResult, outError = None, outWorld = w1, outCalls = []\<rparr>
         | Inr (missedRun, nextRun) \<Rightarrow>
             (let (now2, w2) = rNow r w1;
                  scheduledResult = \<lparr>Requeue = False, RequeueAfter = Sub nextRun now2\<rparr>;
                  (now3, w3) = rNow r w2
              in if IsZero missedRun then
                   \<lparr>outResult = scheduledResult, outError = None, outWorld = w3, outCalls = []\<rparr>
                 else
                   (let (late, w4) = tooLate r cronJob missedRun w3
                    in if late then
                         \<lparr>outResult = scheduledResult, outError = None, outWorld = w4,
                           outCalls = []\<rparr>
                       else startJob lib r cronJob active missedRun scheduledResult w4)))"

text \<open>Lines 76 to 183: fetch the CronJob, list its jobs, classify them, send the status,
  prune the failed and then the successful jobs. The result is either the outcome of an
  early return, or the CronJob in hand, the active jobs, the world and the calls so
  far.\<close>

definition observe ::
  "Library \<Rightarrow> 'w Reconciler \<Rightarrow> Request \<Rightarrow> 'w \<Rightarrow>
     'w Outcome + (CronJob \<times> Job list \<times> 'w \<times> Call list)" where
  "observe lib r req w =
     (case rGet r req w of
        (Inl e, w1) \<Rightarrow>
          Inl \<lparr>outResult = emptyResult, outError = IgnoreNotFound (Some e), outWorld = w1,
                outCalls = [GetCall req]\<rparr>
      | (Inr cronJob0, w1) \<Rightarrow>
          (case rList r (ReqNamespace req) (ReqName req) w1 of
             (Inl e, w2) \<Rightarrow>
               Inl \<lparr>outResult = emptyResult, outError = Some e, outWorld = w2,
                     outCalls = [GetCall req, ListCall (ReqNamespace req) (ReqName req)]\<rparr>
           | (Inr childJobs, w2) \<Rightarrow>
               (let c = classify lib childJobs;
                    cronJob = withStatus lib cronJob0 c;
                    begun = [GetCall req, ListCall (ReqNamespace req) (ReqName req),
                             StatusUpdateCall cronJob]
                in case rStatusUpdate r cronJob w2 of
                     (Some e, w3) \<Rightarrow>
                       Inl \<lparr>outResult = emptyResult, outError = Some e, outWorld = w3,
                             outCalls = begun\<rparr>
                   | (None, w3) \<Rightarrow>
                       (let (w4, deletedFailed) =
                              pruneHistory lib r (FailedJobsHistoryLimit (Spec cronJob))
                                (failedJobs c) w3;
                            (w5, deletedSuccessful) =
                              pruneHistory lib r (SuccessfulJobsHistoryLimit (Spec cronJob))
                                (successfulJobs c) w4
                        in Inr (cronJob, activeJobs c, w5,
                                begun @ deletedFailed @ deletedSuccessful)))))"

text \<open>\<^verbatim>\<open>Reconcile\<close>: lines 76 to 183 in \<open>observe\<close>, the suspend check of lines 184 to
  187, and the rest in \<open>scheduleJob\<close>.\<close>

definition Reconcile :: "Library \<Rightarrow> 'w Reconciler \<Rightarrow> Request \<Rightarrow> 'w \<Rightarrow> 'w Outcome" where
  "Reconcile lib r req w =
     (case observe lib r req w of
        Inl out \<Rightarrow> out
      | Inr (cronJob, active, w5, pruned) \<Rightarrow>
          if Suspend (Spec cronJob) = Some True then
            \<lparr>outResult = emptyResult, outError = None, outWorld = w5, outCalls = pruned\<rparr>
          else
            (let out = scheduleJob lib r cronJob active w5
             in out\<lparr>outCalls := pruned @ outCalls out\<rparr>))"

section \<open>Vocabulary of the properties\<close>

text \<open>\<open>atLeastOccurrences sched t now n\<close>: the next \<open>n\<close> occurrences of the schedule
  after \<open>t\<close>, each later than the one before, are not after \<open>now\<close>; that is, at
  least \<open>n\<close> occurrences lie in the interval from \<open>t\<close> (excluded) to \<open>now\<close>
  (included).\<close>

fun atLeastOccurrences :: "(Time \<Rightarrow> Time) \<Rightarrow> Time \<Rightarrow> Time \<Rightarrow> nat \<Rightarrow> bool" where
  "atLeastOccurrences sched t now 0 = True"
| "atLeastOccurrences sched t now (Suc n) =
     (t < sched t \<and> sched t \<le> now \<and> atLeastOccurrences sched (sched t) now n)"

text \<open>An instant on a whole second, as every occurrence of a cron schedule is.\<close>

definition wholeSecond :: "Time \<Rightarrow> bool" where
  "wholeSecond t = (t mod 1000000000 = 0)"

fun deletedJobs :: "Call list \<Rightarrow> Job list" where
  "deletedJobs [] = []"
| "deletedJobs (DeleteCall job e # cs) = job # deletedJobs cs"
| "deletedJobs (c # cs) = deletedJobs cs"

fun isDeleteCall :: "Call \<Rightarrow> bool" where
  "isDeleteCall (DeleteCall job e) = True"
| "isDeleteCall c = False"

text \<open>A delete call whose answer is an error other than not-found.\<close>

fun failedDelete :: "Call \<Rightarrow> bool" where
  "failedDelete (DeleteCall job e) = (IgnoreNotFound e \<noteq> None)"
| "failedDelete c = False"

fun answerOf :: "Call \<Rightarrow> error option" where
  "answerOf (DeleteCall job e) = e"
| "answerOf c = None"

fun startsJob :: "Call \<Rightarrow> bool" where
  "startsJob (ConstructCall t) = True"
| "startsJob (CreateCall job) = True"
| "startsJob c = False"

text \<open>The \<^verbatim>\<open>lastScheduleTime\<close> that a pass sent to the store, if it sent a status.\<close>

fun persistedLastScheduleTime :: "Call list \<Rightarrow> Time option option" where
  "persistedLastScheduleTime [] = None"
| "persistedLastScheduleTime (StatusUpdateCall cronJob # cs) =
     Some (LastScheduleTime (Status cronJob))"
| "persistedLastScheduleTime (c # cs) = persistedLastScheduleTime cs"

text \<open>The order on \<^verbatim>\<open>lastScheduleTime\<close>: unset is below every time.\<close>

fun notEarlier :: "Time option \<Rightarrow> Time option \<Rightarrow> bool" where
  "notEarlier later None = True"
| "notEarlier None (Some t) = False"
| "notEarlier (Some u) (Some t) = (t \<le> u)"

text \<open>The scheduled times that \<^verbatim>\<open>getScheduledTimeForJob\<close> recovers from a list of jobs,
  and the latest of a list of times.\<close>

fun recoveredTimes :: "Library \<Rightarrow> Job list \<Rightarrow> Time list" where
  "recoveredTimes lib [] = []"
| "recoveredTimes lib (job # rest) =
     (case getScheduledTimeForJob lib job of
        Inr (Some t) \<Rightarrow> t # recoveredTimes lib rest
      | _ \<Rightarrow> recoveredTimes lib rest)"

fun latest :: "Time list \<Rightarrow> Time option" where
  "latest [] = None"
| "latest (t # ts) = (case latest ts of None \<Rightarrow> Some t | Some m \<Rightarrow> Some (max t m))"

text \<open>The later of two optional times.\<close>

fun laterOf :: "Time option \<Rightarrow> Time option \<Rightarrow> Time option" where
  "laterOf None b = b"
| "laterOf (Some m) None = Some m"
| "laterOf (Some m) (Some t) = Some (max m t)"

text \<open>The earliest time in exact arithmetic: the bound, raised to \<open>now\<close> minus the
  deadline when a deadline is set.\<close>

definition exactEarliest :: "CronJob \<Rightarrow> Time \<Rightarrow> Time" where
  "exactEarliest cronJob now =
     (case StartingDeadlineSeconds (Spec cronJob) of
        None \<Rightarrow> boundTime cronJob
      | Some d \<Rightarrow> max (boundTime cronJob) (now - 1000000000 * sint d))"






section \<open>Test fixtures\<close>

text \<open>A library and a store to run the model on: the schedule \<^verbatim>\<open>* * * * *\<close>, the
  schedule \<^verbatim>\<open>0 0 31 2 *\<close> that no time satisfies (the cron package's \<^verbatim>\<open>Next\<close> then
  returns the zero time), an
  insertion sort for \<^verbatim>\<open>sort.Slice\<close>, the helpers as the kubebuilder book writes them
  (the first true \<^verbatim>\<open>Complete\<close> or \<^verbatim>\<open>Failed\<close> condition; the scheduled-time annotation
  parsed back), the decimal Unix seconds as a stand-in for the RFC 3339 text, and a
  store that holds one CronJob, its jobs and a clock that stands still.\<close>

definition everyMinute :: "Time \<Rightarrow> Time" where
  "everyMinute t = (t div 60000000000 + 1) * 60000000000"

definition neverSchedule :: "Time \<Rightarrow> Time" where
  "neverSchedule t = zeroTime"

fun insertSorted :: "('a \<Rightarrow> 'a \<Rightarrow> bool) \<Rightarrow> 'a \<Rightarrow> 'a list \<Rightarrow> 'a list" where
  "insertSorted lt x [] = [x]"
| "insertSorted lt x (y # ys) =
     (if lt x y then x # y # ys else y # insertSorted lt x ys)"

definition insertionSort :: "('a \<Rightarrow> 'a \<Rightarrow> bool) \<Rightarrow> 'a list \<Rightarrow> 'a list" where
  "insertionSort lt xs = foldr (insertSorted lt) xs []"

fun firstFinished :: "(string \<times> string) list \<Rightarrow> bool \<times> string" where
  "firstFinished [] = (False, [])"
| "firstFinished ((conditionType, conditionStatus) # cs) =
     (if (conditionType = JobComplete \<or> conditionType = JobFailed)
         \<and> conditionStatus = ''True''
      then (True, conditionType) else firstFinished cs)"

fun parseDigits :: "nat \<Rightarrow> string \<Rightarrow> nat option" where
  "parseDigits acc [] = Some acc"
| "parseDigits acc (c # cs) =
     (if 48 \<le> (of_char c :: nat) \<and> (of_char c :: nat) \<le> 57
      then parseDigits (10 * acc + (of_char c - 48)) cs else None)"

definition parseInt :: "string \<Rightarrow> int option" where
  "parseInt s =
     (case s of
        [] \<Rightarrow> None
      | c # cs \<Rightarrow>
          if c = CHR ''-'' then
            (if cs = [] then None else map_option (\<lambda>n. - int n) (parseDigits 0 cs))
          else map_option int (parseDigits 0 s))"

definition demoLib :: Library where
  "demoLib =
     \<lparr>ParseStandard =
        (\<lambda>s. if s = ''* * * * *'' then Inr everyMinute
             else if s = ''0 0 31 2 *'' then Inr neverSchedule
             else Inl (Failure ''expected exactly 5 fields'')),
      FormatRFC3339 = (\<lambda>t. formatInt (Unix t)),
      SortSlice = insertionSort,
      GetReference =
        (\<lambda>job. Inr \<lparr>RefKind = ''Job'', RefNamespace = JobNamespace job,
                      RefName = JobName job\<rparr>),
      GVKForObject = (\<lambda>cronJob. Inr (''batch.tutorial.kubebuilder.io/v1'', ''CronJob'')),
      isJobFinished = (\<lambda>job. firstFinished (Conditions job)),
      getScheduledTimeForJob =
        (\<lambda>job. case JobAnnotations job scheduledTimeAnnotation of
                  None \<Rightarrow> Inr None
                | Some raw \<Rightarrow>
                    (case parseInt raw of
                       None \<Rightarrow> Inl (Failure ''cannot parse the scheduled time'')
                     | Some secs \<Rightarrow> Inr (Some (secs * 1000000000))))\<rparr>"

record Store =
  stCronJob :: "CronJob option"
  stJobs :: "Job list"
  stClock :: Time
  stDeleteAnswer :: "error option"

text \<open>\<open>stDeleteAnswer\<close>, when set, is what every delete answers, and nothing is deleted:
  a store that fails, or that no longer has a job its list still shows.\<close>

definition storeReconciler :: "Store Reconciler" where
  "storeReconciler =
     \<lparr>rGet =
        (\<lambda>req s.
           case stCronJob s of
             None \<Rightarrow> (Inl NotFound, s)
           | Some cronJob \<Rightarrow>
               if Name cronJob = ReqName req \<and> Namespace cronJob = ReqNamespace req
               then (Inr cronJob, s) else (Inl NotFound, s)),
      rList =
        (\<lambda>ns owner s.
           (Inr (filter (\<lambda>job. JobNamespace job = ns
                     \<and> list_ex (\<lambda>ref. Controller ref \<and> OwnerName ref = owner)
                          (JobOwnerReferences job)) (stJobs s)), s)),
      rStatusUpdate =
        (\<lambda>cronJob s.
           case stCronJob s of
             None \<Rightarrow> (Some NotFound, s)
           | Some old \<Rightarrow> (None, s\<lparr>stCronJob := Some (old\<lparr>Status := Status cronJob\<rparr>)\<rparr>)),
      rDelete =
        (\<lambda>job s.
           case stDeleteAnswer s of
             Some e \<Rightarrow> (Some e, s)
           | None \<Rightarrow>
               if list_ex (\<lambda>j. JobName j = JobName job) (stJobs s)
               then (None, s\<lparr>stJobs := filter (\<lambda>j. JobName j \<noteq> JobName job) (stJobs s)\<rparr>)
               else (Some NotFound, s)),
      rCreate =
        (\<lambda>job s.
           if list_ex (\<lambda>j. JobName j = JobName job) (stJobs s)
           then (Some (Failure ''already exists''), s)
           else (None, s\<lparr>stJobs := stJobs s @ [job]\<rparr>)),
      rNow = (\<lambda>s. (stClock s, s))\<rparr>"

text \<open>A CronJob \<^verbatim>\<open>default/demo\<close> created at the epoch, whose template carries a
  scheduled-time annotation of its own, and a job of it: its name, its start time, its
  finished condition (none when empty) and the Unix second it was scheduled at.\<close>

definition demoCronJob :: CronJob where
  "demoCronJob =
     \<lparr>Name = ''demo'', Namespace = ''default'', CreationTimestamp = 0,
      Spec = \<lparr>Schedule = ''* * * * *'', StartingDeadlineSeconds = None,
               ConcurrencyPolicy = AllowConcurrent, Suspend = None,
               JobTemplate = \<lparr>TemplateLabels = [''app'' \<mapsto> ''demo''],
                                TemplateAnnotations = [scheduledTimeAnnotation \<mapsto> ''stale''],
                                TemplateSpec = ''pod''\<rparr>,
               SuccessfulJobsHistoryLimit = None, FailedJobsHistoryLimit = None\<rparr>,
      Status = \<lparr>Active = [], LastScheduleTime = None\<rparr>\<rparr>"

definition deadlineCronJob :: "64 word \<Rightarrow> CronJob" where
  "deadlineCronJob d =
     demoCronJob\<lparr>Spec := (Spec demoCronJob)\<lparr>StartingDeadlineSeconds := Some d\<rparr>\<rparr>"

definition policyCronJob :: "ConcurrencyPolicy \<Rightarrow> CronJob" where
  "policyCronJob policy =
     demoCronJob\<lparr>Spec := (Spec demoCronJob)\<lparr>ConcurrencyPolicy := policy\<rparr>\<rparr>"

definition suspendedCronJob :: CronJob where
  "suspendedCronJob =
     demoCronJob\<lparr>Spec := (Spec demoCronJob)\<lparr>Suspend := Some True,
                                               SuccessfulJobsHistoryLimit := Some 1,
                                               FailedJobsHistoryLimit := Some 1\<rparr>\<rparr>"

text \<open>A CronJob whose schedule has no occurrence, created 100 seconds after the epoch.\<close>

definition neverCronJob :: CronJob where
  "neverCronJob =
     demoCronJob\<lparr>CreationTimestamp := 100000000000,
                 Spec := (Spec demoCronJob)\<lparr>Schedule := ''0 0 31 2 *''\<rparr>\<rparr>"

definition limitCronJob :: "32 word \<Rightarrow> CronJob" where
  "limitCronJob limit =
     demoCronJob\<lparr>Spec := (Spec demoCronJob)\<lparr>SuccessfulJobsHistoryLimit := Some limit,
                                               FailedJobsHistoryLimit := Some limit\<rparr>\<rparr>"

definition demoRequest :: Request where
  "demoRequest = \<lparr>ReqNamespace = ''default'', ReqName = ''demo''\<rparr>"

definition demoJob :: "string \<Rightarrow> Time option \<Rightarrow> string \<Rightarrow> int \<Rightarrow> Job" where
  "demoJob name started finished secs =
     \<lparr>JobName = name, JobNamespace = ''default'', JobLabels = Map.empty,
      JobAnnotations = [scheduledTimeAnnotation \<mapsto> formatInt secs],
      JobOwnerReferences =
        [\<lparr>OwnerAPIVersion = ''batch.tutorial.kubebuilder.io/v1'', OwnerKind = ''CronJob'',
          OwnerName = ''demo'', Controller = True\<rparr>],
      JobSpec = ''pod'', StartTime = started,
      Conditions = (if finished = [] then [] else [(finished, ''True'')])\<rparr>"

definition demoStore :: "CronJob \<Rightarrow> Job list \<Rightarrow> Time \<Rightarrow> error option \<Rightarrow> Store" where
  "demoStore cronJob jobs now deleteAnswer =
     \<lparr>stCronJob = Some cronJob, stJobs = jobs, stClock = now,
      stDeleteAnswer = deleteAnswer\<rparr>"

section \<open>The schedule calculator\<close>

subsection \<open>The loop over the missed starts\<close>

lemma missedStarts_too_many:
  "starts + n = 100 \<Longrightarrow> t \<le> now \<Longrightarrow> atLeastOccurrences sched t now n \<Longrightarrow>
   missedStarts sched now t lastMissed starts = Inl TooManyMissedStarts"
proof (induction n arbitrary: t lastMissed starts)
  case 0
  then show ?case by (simp add: After_def missedStarts.simps)
next
  case (Suc n)
  from Suc.prems have st: "starts + 1 \<le> 100" by simp
  have "missedStarts sched now t lastMissed starts
        = missedStarts sched now (sched t) t (starts + 1)"
    using Suc.prems(2) st by (subst missedStarts.simps) (simp add: After_def)
  also have "\<dots> = Inl TooManyMissedStarts"
    using Suc.prems by (intro Suc.IH) auto
  finally show ?case .
qed


text \<open>When the loop ends without error, the time it stopped at is the \<^verbatim>\<open>Next\<close> of a time that
  is not after \<open>now\<close>.\<close>

lemma missedStarts_exit:
  "missedStarts sched now t lastMissed starts = Inr m \<Longrightarrow> t = sched p \<Longrightarrow> p \<le> now \<Longrightarrow>
   \<exists>q. q \<le> now \<and> now < sched q"
proof (induction sched now t lastMissed starts arbitrary: p rule: missedStarts.induct)
  case (1 sched now t lastMissed starts)
  show ?case
  proof (cases "After t now")
    case True
    with "1.prems"(2,3) show ?thesis by (auto simp: After_def)
  next
    case False
    with "1.prems"(1) have st: "\<not> 100 < starts + 1"
      by (auto simp: missedStarts.simps [of sched now t] split: if_splits)
    have again: "missedStarts sched now (sched t) t (starts + 1) = Inr m"
      using "1.prems"(1) False st by (simp add: missedStarts.simps [of sched now t])
    from False have "t \<le> now" by (simp add: After_def)
    from "1.IH" [OF False st again refl this] show ?thesis .
  qed
qed

subsection \<open>The earliest time\<close>

lemma sint_neg_Second: "sint (- Second) = - 1000000000"
  by (simp add: Second_def)




text \<open>A deadline of at most 9223372036 seconds has its nanoseconds in the range of the
  64-bit \<^verbatim>\<open>Duration\<close>: the product of line 206 is exact, and so is the earliest time
  whenever it is not after \<open>now\<close>.\<close>

lemma exact_product:
  assumes "0 \<le> sint (d :: 64 word)" and "sint d \<le> 9223372036"
  shows "sint (- Second * d) = - (1000000000 * sint d)"
proof -
  have "sint (- Second * d) = signed_take_bit 63 (- 1000000000 * sint d)"
    by (subst sint_word_mult) (simp add: sint_neg_Second)
  also have "\<dots> = - 1000000000 * sint d"
    using assms by (intro signed_take_bit_int_eq_self) auto
  finally show ?thesis by simp
qed

lemma earliestTime_exact:
  assumes "\<forall>d. StartingDeadlineSeconds (Spec cronJob) = Some d \<longrightarrow> sint d \<le> 9223372036"
    and "exactEarliest cronJob now \<le> now"
  shows "earliestTime cronJob now = exactEarliest cronJob now"
proof (cases "StartingDeadlineSeconds (Spec cronJob)")
  case None
  then show ?thesis by (simp add: earliestTime_def exactEarliest_def)
next
  case (Some d)
  with assms(1) have hi: "sint d \<le> 9223372036" by simp
  from assms(2) Some have "now - 1000000000 * sint d \<le> now"
    by (simp add: exactEarliest_def)
  then have "0 \<le> sint d" by simp
  from exact_product [OF this hi] Some show ?thesis
    by (auto simp: earliestTime_def exactEarliest_def Let_def Add_def After_def max_def)
qed

subsection \<open>The fixtures' schedule\<close>

lemma everyMinute_later: "t < everyMinute t"
  unfolding everyMinute_def by presburger

lemma everyMinute_first:
  assumes "t \<le> u" and "u < everyMinute t"
  shows "everyMinute u = everyMinute t"
proof -
  have lo: "t div 60000000000 \<le> u div 60000000000"
    using assms(1) by (rule zdiv_mono1) simp
  have "u div 60000000000 < t div 60000000000 + 1"
    using assms(2) unfolding everyMinute_def
    by (simp add: div_less_iff_less_mult)
  with lo have "u div 60000000000 = t div 60000000000" by simp
  then show ?thesis by (simp add: everyMinute_def)
qed

lemma everyMinute_occurrences:
  "atLeastOccurrences everyMinute (60000000000 * m) now n =
     (n = 0 \<or> 60000000000 * (m + int n) \<le> now)"
proof (induction n arbitrary: m)
  case 0
  show ?case by simp
next
  case (Suc n)
  have step: "everyMinute (60000000000 * m) = 60000000000 * (m + 1)"
    by (simp add: everyMinute_def)
  show ?case
    unfolding atLeastOccurrences.simps step Suc.IH
    by (cases n) (auto simp: algebra_simps)
qed

lemma parse_demo: "ParseStandard demoLib ''* * * * *'' = Inr everyMinute"
  by (simp add: demoLib_def)

lemma parse_never: "ParseStandard demoLib ''0 0 31 2 *'' = Inr neverSchedule"
  by (simp add: demoLib_def)

lemma schedule_demo:
  "Schedule (Spec demoCronJob) = ''* * * * *''"
  "Schedule (Spec (deadlineCronJob d)) = ''* * * * *''"
  by (simp_all add: deadlineCronJob_def demoCronJob_def)

lemma spec_deadlineCronJob:
  "StartingDeadlineSeconds (Spec (deadlineCronJob d)) = Some d"
  "boundTime (deadlineCronJob d) = 0"
  by (simp_all add: deadlineCronJob_def demoCronJob_def boundTime_def)

subsection \<open>Too many missed starts\<close>

text \<open>
  Claim C1, as amended. The walk over the missed starts begins at the earliest time, not
  at the bound: the earliest time is the bound (\<^verbatim>\<open>lastScheduleTime\<close>, else the creation
  time) when no deadline is set, and the later of the bound and \<open>now\<close> minus the
  deadline when a deadline of at most 9223372036 seconds is set, whose nanoseconds fit
  the 64-bit \<^verbatim>\<open>Duration\<close>. When more than 100 occurrences of the schedule lie after that
  earliest time, computed in exact arithmetic, and not after \<open>now\<close>, \<open>getNextSchedule\<close>
  returns no missed run but the error \<open>TooManyMissedStarts\<close>.
\<close>

theorem too_many_missed_starts:
  assumes "ParseStandard lib (Schedule (Spec cronJob)) = Inr sched"
    and "\<forall>d. StartingDeadlineSeconds (Spec cronJob) = Some d \<longrightarrow> sint d \<le> 9223372036"
    and "atLeastOccurrences sched (exactEarliest cronJob now) now 101"
  shows "getNextSchedule lib cronJob now = Inl TooManyMissedStarts"
proof -
  let ?x = "exactEarliest cronJob now"
  from assms(3) have later: "?x < sched ?x" and first: "sched ?x \<le> now"
    and more: "atLeastOccurrences sched (sched ?x) now 100"
    by (simp_all add: eval_nat_numeral)
  from later first have "?x \<le> now" by simp
  from earliestTime_exact [OF assms(2) this] have e: "earliestTime cronJob now = ?x" .
  from later first have "\<not> After ?x now" by (simp add: After_def)
  moreover have "missedStarts sched now (sched ?x) zeroTime 0 = Inl TooManyMissedStarts"
    using first more by (intro missedStarts_too_many) auto
  ultimately show ?thesis
    using assms(1) by (simp add: getNextSchedule_def e)
qed

text \<open>The schedule of every minute and a CronJob created 500 minutes before \<open>now\<close>: with
  no deadline, and with a deadline of 12000 seconds, which leaves the 200 minutes before
  \<open>now\<close>, the error.\<close>

theorem too_many_missed_starts_witness:
  "atLeastOccurrences everyMinute (exactEarliest demoCronJob 30000000000000) 30000000000000 101
   \<and> getNextSchedule demoLib demoCronJob 30000000000000 = Inl TooManyMissedStarts
   \<and> exactEarliest (deadlineCronJob 12000) 30000000000000 = 18000000000000
   \<and> atLeastOccurrences everyMinute (exactEarliest (deadlineCronJob 12000) 30000000000000)
        30000000000000 101
   \<and> getNextSchedule demoLib (deadlineCronJob 12000) 30000000000000 = Inl TooManyMissedStarts"
proof -
  have parse: "ParseStandard demoLib (Schedule (Spec demoCronJob)) = Inr everyMinute"
    "ParseStandard demoLib (Schedule (Spec (deadlineCronJob 12000))) = Inr everyMinute"
    by (simp_all add: schedule_demo parse_demo)
  have fits: "\<forall>d. StartingDeadlineSeconds (Spec demoCronJob) = Some d
      \<longrightarrow> sint d \<le> 9223372036"
    "\<forall>d. StartingDeadlineSeconds (Spec (deadlineCronJob 12000)) = Some d
      \<longrightarrow> sint d \<le> 9223372036"
    by (simp_all add: spec_deadlineCronJob demoCronJob_def)
  have x: "exactEarliest demoCronJob 30000000000000 = 60000000000 * 0"
    by (simp add: exactEarliest_def boundTime_def demoCronJob_def)
  have many: "atLeastOccurrences everyMinute (exactEarliest demoCronJob 30000000000000)
      30000000000000 101"
    unfolding x everyMinute_occurrences by simp
  have x': "exactEarliest (deadlineCronJob 12000) 30000000000000 = 60000000000 * 300"
    by (simp add: exactEarliest_def spec_deadlineCronJob)
  have many': "atLeastOccurrences everyMinute
      (exactEarliest (deadlineCronJob 12000) 30000000000000) 30000000000000 101"
    unfolding x' everyMinute_occurrences by simp
  from too_many_missed_starts [OF parse(1) fits(1) many]
    too_many_missed_starts [OF parse(2) fits(2) many'] many many' x'
  show ?thesis by simp
qed

text \<open>Claim C1 as stated fails: the same CronJob with a starting deadline of 120 seconds
  has its bound 500 periods before \<open>now\<close>, more than 100 occurrences between the bound
  and \<open>now\<close>, and \<open>getNextSchedule\<close> returns the missed run at \<open>now\<close> and the next run
  one minute later. And a deadline longer than 9223372036 seconds is not what raises the
  bound: with 18446744074 seconds, a bound 200 minutes before \<open>now\<close> and \<open>now\<close> minus
  the deadline long before the bound, the product of line 206 wraps to 290448384
  nanoseconds, and \<open>getNextSchedule\<close> returns a result although more than 100
  occurrences lie after the exact earliest time.\<close>

theorem too_many_missed_starts_counterexample:
  "atLeastOccurrences everyMinute (boundTime (deadlineCronJob 120)) 30000000000000 101
   \<and> getNextSchedule demoLib (deadlineCronJob 120) 30000000000000
       = Inr (30000000000000, 30060000000000)
   \<and> atLeastOccurrences everyMinute (boundTime (deadlineCronJob 18446744074)) 12000000000000 101
   \<and> atLeastOccurrences everyMinute (exactEarliest (deadlineCronJob 18446744074) 12000000000000)
        12000000000000 101
   \<and> getNextSchedule demoLib (deadlineCronJob 18446744074) 12000000000000
       = Inr (12000000000000, 12060000000000)"
proof -
  have b: "boundTime (deadlineCronJob d) = 60000000000 * 0" for d
    by (simp add: spec_deadlineCronJob)
  have many: "atLeastOccurrences everyMinute (boundTime (deadlineCronJob 120))
      30000000000000 101"
    unfolding b everyMinute_occurrences by simp
  have e: "earliestTime (deadlineCronJob 120) 30000000000000 = 29880000000000"
    by (simp add: earliestTime_def boundTime_def deadlineCronJob_def demoCronJob_def
          Add_def After_def Second_def Let_def)
  have short: "getNextSchedule demoLib (deadlineCronJob 120) 30000000000000
       = Inr (30000000000000, 30060000000000)"
    by (simp add: getNextSchedule_def schedule_demo parse_demo e After_def everyMinute_def
          missedStarts.simps)
  have many': "atLeastOccurrences everyMinute (boundTime (deadlineCronJob 18446744074))
      12000000000000 101"
    unfolding b everyMinute_occurrences by simp
  have x: "exactEarliest (deadlineCronJob 18446744074) 12000000000000 = 60000000000 * 0"
    by (simp add: exactEarliest_def spec_deadlineCronJob)
  have many'': "atLeastOccurrences everyMinute
      (exactEarliest (deadlineCronJob 18446744074) 12000000000000) 12000000000000 101"
    unfolding x everyMinute_occurrences by simp
  have wrapped: "sint (- Second * (18446744074 :: 64 word)) = - 290448384"
    by (simp add: Second_def)
  have e': "earliestTime (deadlineCronJob 18446744074) 12000000000000 = 11999709551616"
    by (simp add: earliestTime_def spec_deadlineCronJob Add_def After_def Let_def wrapped
        del: mult_minus_left)
  have long: "getNextSchedule demoLib (deadlineCronJob 18446744074) 12000000000000
       = Inr (12000000000000, 12060000000000)"
    by (simp add: getNextSchedule_def schedule_demo parse_demo e' After_def everyMinute_def
          missedStarts.simps)
  from many short many' many'' long show ?thesis by simp
qed

subsection \<open>The next run\<close>

text \<open>
  Claim C5, as amended. On either path the next run that \<open>getNextSchedule\<close> returns is
  \<^verbatim>\<open>sched.Next(now)\<close>. Let \<^verbatim>\<open>Next\<close> be as the cron package documents it: \<^verbatim>\<open>Next(t)\<close> is
  later than \<open>t\<close>, or the zero time when the schedule has no occurrence after \<open>t\<close>,
  and no occurrence lies between \<open>t\<close> and \<^verbatim>\<open>Next(t)\<close>. Then the next run is strictly
  later than \<open>now\<close> whenever the walk over the missed starts was taken, whether or not
  it found a missed run; and when the earliest time is after \<open>now\<close> (line 212), the next
  run is strictly later than \<open>now\<close> unless the schedule has no occurrence after
  \<open>now\<close>: then the zero time is returned as the next run, with no missed run and no
  error.
\<close>

theorem next_run_after_now:
  assumes "ParseStandard lib (Schedule (Spec cronJob)) = Inr sched"
    and "\<forall>t u. t \<le> u \<longrightarrow> u < sched t \<longrightarrow> sched u = sched t"
    and "\<forall>t. t < sched t \<or> sched t = zeroTime"
    and "getNextSchedule lib cronJob now = Inr (missedRun, nextRun)"
  shows "nextRun = sched now
         \<and> (now < nextRun
            \<or> (nextRun = zeroTime \<and> After (earliestTime cronJob now) now
               \<and> missedRun = zeroTime))"
proof -
  let ?e = "earliestTime cronJob now"
  from assms(1,4) have n: "nextRun = sched now"
    by (auto simp: getNextSchedule_def split: if_splits sum.splits)
  show ?thesis
  proof (cases "After ?e now")
    case True
    with assms(1,4) have "missedRun = zeroTime"
      by (simp add: getNextSchedule_def)
    with True n assms(3) show ?thesis by metis
  next
    case False
    with assms(1,4) have loop: "missedStarts sched now (sched ?e) zeroTime 0 = Inr missedRun"
      by (auto simp: getNextSchedule_def split: sum.splits)
    from False have "?e \<le> now" by (simp add: After_def)
    from missedStarts_exit [OF loop refl this]
    obtain q where q: "q \<le> now" "now < sched q" by blast
    with assms(2) have "sched now = sched q" by blast
    with q n show ?thesis by simp
  qed
qed

text \<open>Every minute, created at the epoch, \<open>now\<close> 90 seconds later: the missed run is the
  minute before \<open>now\<close>, the next run the minute after.\<close>

theorem next_run_after_now_witness:
  "getNextSchedule demoLib demoCronJob 90000000000 = Inr (60000000000, 120000000000)
   \<and> (120000000000 :: Time) = everyMinute 90000000000
   \<and> (90000000000 :: Time) < 120000000000"
proof -
  have parse: "ParseStandard demoLib (Schedule (Spec demoCronJob)) = Inr everyMinute"
    by (simp add: schedule_demo parse_demo)
  have first: "\<forall>t u. t \<le> u \<longrightarrow> u < everyMinute t \<longrightarrow> everyMinute u = everyMinute t"
    by (simp add: everyMinute_first)
  have later: "\<forall>t. t < everyMinute t \<or> everyMinute t = zeroTime"
    by (simp add: everyMinute_later)
  have e: "earliestTime demoCronJob 90000000000 = 0"
    by (simp add: earliestTime_def boundTime_def demoCronJob_def)
  have run: "getNextSchedule demoLib demoCronJob 90000000000
      = Inr (60000000000, 120000000000)"
    by (simp add: getNextSchedule_def schedule_demo parse_demo e After_def everyMinute_def
          missedStarts.simps)
  have "\<not> After (earliestTime demoCronJob 90000000000) 90000000000"
    by (simp add: e After_def)
  with next_run_after_now [OF parse first later run] run show ?thesis by simp
qed

text \<open>Claim C5 as stated fails: the expression \<^verbatim>\<open>0 0 31 2 *\<close> is valid and has no
  occurrence, so that \<^verbatim>\<open>Next\<close> answers the zero time; for a CronJob whose creation time
  is after \<open>now\<close>, line 213 returns that zero time as the next run, with no error, and
  the zero time is before \<open>now\<close>.\<close>

theorem next_run_after_now_counterexample:
  "ParseStandard demoLib (Schedule (Spec neverCronJob)) = Inr neverSchedule
   \<and> getNextSchedule demoLib neverCronJob 90000000000 = Inr (zeroTime, zeroTime)
   \<and> zeroTime < 90000000000"
proof -
  have s: "Schedule (Spec neverCronJob) = ''0 0 31 2 *''"
    by (simp add: neverCronJob_def)
  have e: "earliestTime neverCronJob 90000000000 = 100000000000"
    by (simp add: earliestTime_def boundTime_def neverCronJob_def demoCronJob_def)
  have run: "getNextSchedule demoLib neverCronJob 90000000000 = Inr (zeroTime, zeroTime)"
    by (simp add: getNextSchedule_def s parse_never e After_def neverSchedule_def)
  have "zeroTime < 90000000000" by (simp add: zeroTime_def)
  with s run show ?thesis by (simp add: parse_never)
qed

subsection \<open>The missed run\<close>



section \<open>The job constructor\<close>

lemma of_char_digitChar: "d < 10 \<Longrightarrow> (of_char (digitChar d) :: nat) = 48 + d"
  by (simp add: digitChar_def)

lemma digitChar_inject: "d < 10 \<Longrightarrow> d' < 10 \<Longrightarrow> digitChar d = digitChar d' \<Longrightarrow> d = d'"
  by (metis of_char_digitChar add_left_cancel)

lemma digitChar_not_minus: "d < 10 \<Longrightarrow> digitChar d \<noteq> CHR ''-''"
proof
  assume "d < 10" and "digitChar d = CHR ''-''"
  then have "(of_char (CHR ''-'') :: nat) = 48 + d"
    using of_char_digitChar by metis
  then show False by simp
qed

lemma decNat_snoc: "\<exists>ds. decNat n = ds @ [digitChar (n mod 10)] \<and> (ds = []) = (n < 10)"
proof (cases "n < 10")
  case True
  then show ?thesis by (simp add: decNat.simps [of n])
next
  case False
  have "decNat (n div 10) \<noteq> []"
    by (subst decNat.simps) simp
  with False show ?thesis by (simp add: decNat.simps [of n])
qed

lemma decNat_inject: "decNat n = decNat m \<Longrightarrow> n = m"
proof (induction n arbitrary: m rule: less_induct)
  case (less n)
  show ?case
  proof (cases "n < 10")
    case True
    from decNat_snoc [of m] obtain ds where m: "decNat m = ds @ [digitChar (m mod 10)]"
      and ds: "(ds = []) = (m < 10)" by blast
    from True have "decNat n = [digitChar n]" by (simp add: decNat.simps [of n])
    with less.prems m have "ds = []" and "digitChar n = digitChar (m mod 10)" by auto
    with ds True show ?thesis using digitChar_inject [of n m] by simp
  next
    case False
    then have n: "decNat n = decNat (n div 10) @ [digitChar (n mod 10)]"
      by (simp add: decNat.simps [of n])
    have m10: "\<not> m < 10"
    proof
      assume "m < 10"
      then have "decNat m = [digitChar m]" by (simp add: decNat.simps [of m])
      moreover from decNat_snoc [of n] False obtain ds where
        "decNat n = ds @ [digitChar (n mod 10)]" "ds \<noteq> []" by blast
      ultimately show False using less.prems by auto
    qed
    then have m: "decNat m = decNat (m div 10) @ [digitChar (m mod 10)]"
      by (simp add: decNat.simps [of m])
    from less.prems n m have hi: "decNat (n div 10) = decNat (m div 10)"
      and lo: "digitChar (n mod 10) = digitChar (m mod 10)" by auto
    from False have "n div 10 < n" by simp
    from less.IH [OF this hi] have "n div 10 = m div 10" .
    moreover from lo have "n mod 10 = m mod 10"
      by (intro digitChar_inject) auto
    ultimately show ?thesis by (metis div_mult_mod_eq)
  qed
qed

lemma decNat_first: "\<exists>d rest. d < 10 \<and> decNat n = digitChar d # rest"
proof (induction n rule: less_induct)
  case (less n)
  show ?case
  proof (cases "n < 10")
    case True
    then show ?thesis by (auto simp: decNat.simps [of n])
  next
    case False
    then have "n div 10 < n" by simp
    from less.IH [OF this] obtain d rest where "d < 10" "decNat (n div 10) = digitChar d # rest"
      by blast
    with False show ?thesis by (auto simp: decNat.simps [of n])
  qed
qed

lemma formatInt_inject: "formatInt i = formatInt j \<Longrightarrow> i = j"
proof -
  assume eq: "formatInt i = formatInt j"
  have mixed: False if "a < 0" "\<not> b < 0" "formatInt a = formatInt b" for a b :: int
  proof -
    from decNat_first [of "nat b"] obtain d rest where "d < 10" "decNat (nat b) = digitChar d # rest"
      by blast
    with that show False using digitChar_not_minus [of d] by (auto simp: formatInt_def)
  qed
  show ?thesis
  proof (cases "i < 0"; cases "j < 0")
    assume "i < 0" "j < 0"
    with eq have "nat (- i) = nat (- j)" by (auto simp: formatInt_def dest: decNat_inject)
    with \<open>i < 0\<close> \<open>j < 0\<close> show ?thesis by simp
  next
    assume "\<not> i < 0" "\<not> j < 0"
    with eq have "nat i = nat j" by (auto simp: formatInt_def dest: decNat_inject)
    with \<open>\<not> i < 0\<close> \<open>\<not> j < 0\<close> show ?thesis by simp
  next
    assume "i < 0" "\<not> j < 0"
    with mixed [of i j] eq show ?thesis by simp
  next
    assume "\<not> i < 0" "j < 0"
    with mixed [of j i] eq show ?thesis by simp
  qed
qed

lemma constructed_job:
  assumes "constructJobForCronJob lib cronJob t = Inr job"
  shows "JobName job = Name cronJob @ ''-'' @ formatInt (Unix t)"
    and "JobNamespace job = Namespace cronJob"
    and "JobAnnotations job =
           (TemplateAnnotations (JobTemplate (Spec cronJob)))
             (scheduledTimeAnnotation \<mapsto> FormatRFC3339 lib t)"
    and "JobLabels job = TemplateLabels (JobTemplate (Spec cronJob))"
  using assms
  by (auto simp: constructJobForCronJob_def SetControllerReference_def Let_def
      split: sum.splits prod.splits)

lemma constructed_returns:
  assumes "GVKForObject lib cronJob = Inr gvk"
  shows "\<exists>job. constructJobForCronJob lib cronJob t = Inr job"
  using assms
  by (cases gvk) (simp add: constructJobForCronJob_def SetControllerReference_def Let_def)

lemma wholeSecond_Unix: "wholeSecond t \<Longrightarrow> wholeSecond t' \<Longrightarrow> Unix t' = Unix t \<Longrightarrow> t' = t"
  unfolding wholeSecond_def Unix_def by (metis mult_div_mod_eq add.right_neutral)

text \<open>
  Claim C4. A job that the constructor returns is named by the parent's name, a hyphen
  and the decimal Unix seconds of the scheduled time, in the parent's namespace. Two
  calls for parents of the same name and namespace and the same scheduled time give the
  same name and namespace; the names of two calls for the same parent agree exactly
  when the Unix seconds of the two times agree, so the names for two distinct nominal
  times, which are whole seconds as every occurrence of a cron schedule is, are
  distinct.
\<close>

theorem job_name_deterministic:
  assumes "constructJobForCronJob lib cronJob t = Inr job"
    and "constructJobForCronJob lib' cronJob' t' = Inr job'"
    and "Name cronJob' = Name cronJob"
    and "Namespace cronJob' = Namespace cronJob"
  shows "JobName job = Name cronJob @ ''-'' @ formatInt (Unix t)
         \<and> JobNamespace job = Namespace cronJob
         \<and> JobNamespace job' = JobNamespace job
         \<and> (t' = t \<longrightarrow> JobName job' = JobName job)
         \<and> (JobName job' = JobName job) = (Unix t' = Unix t)
         \<and> (wholeSecond t \<longrightarrow> wholeSecond t' \<longrightarrow> t' \<noteq> t \<longrightarrow> JobName job' \<noteq> JobName job)"
proof -
  note j = constructed_job(1,2) [OF assms(1)]
  note j' = constructed_job(1,2) [OF assms(2)]
  have names: "(JobName job' = JobName job) = (Unix t' = Unix t)"
    using formatInt_inject [of "Unix t'" "Unix t"] by (auto simp: j j' assms(3))
  moreover have "JobName job' \<noteq> JobName job" if "wholeSecond t" "wholeSecond t'" "t' \<noteq> t"
    using that names wholeSecond_Unix by blast
  ultimately show ?thesis using j j' assms(4) by auto
qed

lemma formatInt_60: "formatInt 60 = ''60''"
  by code_simp

lemma gvk_demo:
  "GVKForObject demoLib cronJob = Inr (''batch.tutorial.kubebuilder.io/v1'', ''CronJob'')"
  by (simp add: demoLib_def)

text \<open>The jobs for minute 1 and minute 2 of the fixture's CronJob.\<close>

theorem job_name_deterministic_witness:
  "\<exists>job job'. constructJobForCronJob demoLib demoCronJob 60000000000 = Inr job
     \<and> constructJobForCronJob demoLib demoCronJob 120000000000 = Inr job'
     \<and> wholeSecond 60000000000 \<and> wholeSecond 120000000000
     \<and> JobName job = ''demo-60'' \<and> JobNamespace job = ''default''
     \<and> JobName job' \<noteq> JobName job"
proof -
  from constructed_returns [OF gvk_demo] obtain job job'
    where a: "constructJobForCronJob demoLib demoCronJob 60000000000 = Inr job"
      and b: "constructJobForCronJob demoLib demoCronJob 120000000000 = Inr job'"
    by blast
  have w: "wholeSecond 60000000000" "wholeSecond 120000000000"
    by (simp_all add: wholeSecond_def)
  have u: "Unix 60000000000 = 60" "Unix 120000000000 = 120" by (simp_all add: Unix_def)
  note names = job_name_deterministic [OF a b refl refl]
  from names have "JobName job = ''demo-60''" "JobNamespace job = ''default''"
    by (simp_all add: u formatInt_60 demoCronJob_def)
  moreover have "(120000000000 :: Time) \<noteq> 60000000000" by simp
  with names w have "JobName job' \<noteq> JobName job"
    by blast
  ultimately show ?thesis using a b w by blast
qed

text \<open>
  Claim C10. Whenever the scheme lookup succeeds, the constructor returns a job whose
  scheduled-time annotation is the RFC 3339 text of the scheduled time, whatever the
  template's annotations hold under that key or any other; every other key is as in the
  template.
\<close>

theorem scheduled_time_annotation_overwrites_template:
  assumes "GVKForObject lib cronJob = Inr gvk"
  shows "\<exists>job. constructJobForCronJob lib cronJob t = Inr job
           \<and> JobAnnotations job scheduledTimeAnnotation = Some (FormatRFC3339 lib t)
           \<and> (\<forall>k. k \<noteq> scheduledTimeAnnotation \<longrightarrow>
                 JobAnnotations job k = TemplateAnnotations (JobTemplate (Spec cronJob)) k)"
proof -
  from constructed_returns [OF assms] obtain job
    where job: "constructJobForCronJob lib cronJob t = Inr job" by blast
  from constructed_job(3) [OF job] job show ?thesis by simp
qed


text \<open>The fixture's template carries the key with the value \<^verbatim>\<open>stale\<close>; the job carries
  the scheduled time.\<close>

theorem scheduled_time_annotation_overwrites_template_witness:
  "TemplateAnnotations (JobTemplate (Spec demoCronJob)) scheduledTimeAnnotation = Some ''stale''
   \<and> (\<exists>job. constructJobForCronJob demoLib demoCronJob 60000000000 = Inr job
          \<and> JobAnnotations job scheduledTimeAnnotation = Some ''60'')"
proof -
  have stale: "TemplateAnnotations (JobTemplate (Spec demoCronJob)) scheduledTimeAnnotation
      = Some ''stale''"
    by (simp add: demoCronJob_def)
  have rendered: "FormatRFC3339 demoLib 60000000000 = ''60''"
    by (simp add: demoLib_def Unix_def formatInt_60)
  from scheduled_time_annotation_overwrites_template [OF gvk_demo, of demoCronJob 60000000000]
  have "\<exists>job. constructJobForCronJob demoLib demoCronJob 60000000000 = Inr job
          \<and> JobAnnotations job scheduledTimeAnnotation = Some ''60''"
    unfolding rendered by blast
  with stale show ?thesis by blast
qed

section \<open>Classifying the child jobs\<close>

text \<open>The loop of lines 98 to 123 keeps the latest of the scheduled times it recovers, and
  sorts each job by what \<^verbatim>\<open>isJobFinished\<close> answers.\<close>


lemma laterOf_Some_latest:
  "laterOf (Some t) (latest ts) = latest (t # ts)"
  by (cases "latest ts") auto

lemma laterOf_assoc: "laterOf (laterOf a b) c = laterOf a (laterOf b c)"
  by (cases a; cases b; cases c) auto

lemma classifyJob_mostRecentTime:
  "mostRecentTime (classifyJob lib c job) =
     laterOf (mostRecentTime c) (latest (recoveredTimes lib [job]))"
  by (cases "mostRecentTime c")
     (auto simp: classifyJob_def Let_def Before_def max_def split: sum.splits option.splits)

lemma recoveredTimes_Cons:
  "laterOf (latest (recoveredTimes lib [job])) (latest (recoveredTimes lib rest)) =
     latest (recoveredTimes lib (job # rest))"
  by (cases "latest (recoveredTimes lib rest)") (auto split: sum.splits option.splits)

lemma foldl_mostRecentTime:
  "mostRecentTime (foldl (classifyJob lib) c jobs) =
     laterOf (mostRecentTime c) (latest (recoveredTimes lib jobs))"
proof (induction jobs arbitrary: c)
  case Nil
  show ?case by (cases "mostRecentTime c") auto
next
  case (Cons job rest)
  show ?case
    unfolding foldl_Cons Cons.IH classifyJob_mostRecentTime laterOf_assoc recoveredTimes_Cons ..
qed

lemma classify_mostRecentTime:
  "mostRecentTime (classify lib childJobs) = latest (recoveredTimes lib childJobs)"
  by (simp add: classify_def foldl_mostRecentTime)

lemma classifyJob_activeJobs:
  "activeJobs (classifyJob lib c job) =
     activeJobs c @ filter (\<lambda>j. snd (isJobFinished lib j) = []) [job]"
  by (auto simp: classifyJob_def Let_def JobFailed_def JobComplete_def
      split: sum.splits option.splits)

lemma foldl_activeJobs:
  "activeJobs (foldl (classifyJob lib) c jobs) =
     activeJobs c @ filter (\<lambda>j. snd (isJobFinished lib j) = []) jobs"
  by (induction jobs arbitrary: c) (simp_all add: classifyJob_activeJobs)

lemma classify_activeJobs:
  "activeJobs (classify lib childJobs) =
     filter (\<lambda>j. snd (isJobFinished lib j) = []) childJobs"
  by (simp add: classify_def foldl_activeJobs)

lemma classifyJob_failedJobs:
  "failedJobs (classifyJob lib c job) =
     failedJobs c @ filter (\<lambda>j. snd (isJobFinished lib j) = JobFailed) [job]"
  by (auto simp: classifyJob_def Let_def JobFailed_def JobComplete_def
      split: sum.splits option.splits)

lemma foldl_failedJobs:
  "failedJobs (foldl (classifyJob lib) c jobs) =
     failedJobs c @ filter (\<lambda>j. snd (isJobFinished lib j) = JobFailed) jobs"
  by (induction jobs arbitrary: c) (simp_all add: classifyJob_failedJobs)

lemma classify_failedJobs:
  "failedJobs (classify lib childJobs) =
     filter (\<lambda>j. snd (isJobFinished lib j) = JobFailed) childJobs"
  by (simp add: classify_def foldl_failedJobs)

lemma classifyJob_successfulJobs:
  "successfulJobs (classifyJob lib c job) =
     successfulJobs c @ filter (\<lambda>j. snd (isJobFinished lib j) = JobComplete) [job]"
  by (auto simp: classifyJob_def Let_def JobFailed_def JobComplete_def
      split: sum.splits option.splits)

lemma foldl_successfulJobs:
  "successfulJobs (foldl (classifyJob lib) c jobs) =
     successfulJobs c @ filter (\<lambda>j. snd (isJobFinished lib j) = JobComplete) jobs"
  by (induction jobs arbitrary: c) (simp_all add: classifyJob_successfulJobs)

lemma classify_successfulJobs:
  "successfulJobs (classify lib childJobs) =
     filter (\<lambda>j. snd (isJobFinished lib j) = JobComplete) childJobs"
  by (simp add: classify_def foldl_successfulJobs)

lemma latest_Max: "latest ts = (if ts = [] then None else Some (Max (set ts)))"
proof (induction ts)
  case Nil
  show ?case by simp
next
  case (Cons t ts)
  then show ?case by (cases "ts = []") (auto simp: max.commute)
qed

lemma set_recoveredTimes:
  "set (recoveredTimes lib jobs) =
     {t. \<exists>job \<in> set jobs. getScheduledTimeForJob lib job = Inr (Some t)}"
  by (induction jobs) (auto split: sum.splits option.splits)

lemma recovered_kept:
  assumes "\<forall>t. latest (recoveredTimes lib jobs) = Some t \<longrightarrow>
      (\<exists>job \<in> set jobs'. getScheduledTimeForJob lib job = Inr (Some t))"
  shows "notEarlier (latest (recoveredTimes lib jobs')) (latest (recoveredTimes lib jobs))"
proof (cases "latest (recoveredTimes lib jobs)")
  case None
  then show ?thesis by simp
next
  case (Some t)
  with assms obtain job where "job \<in> set jobs'"
    and "getScheduledTimeForJob lib job = Inr (Some t)" by blast
  then have t: "t \<in> set (recoveredTimes lib jobs')"
    by (auto simp: set_recoveredTimes)
  then have "recoveredTimes lib jobs' \<noteq> []" by auto
  moreover from t have "t \<le> Max (set (recoveredTimes lib jobs'))" by simp
  ultimately show ?thesis using Some by (simp add: latest_Max [of "recoveredTimes lib jobs'"])
qed

section \<open>Pruning the history\<close>

lemma snd_deleteOld_Cons:
  "snd (deleteOld r limit n i (job # rest) w) =
     (if word_of_nat n - limit \<le>s word_of_nat i then []
      else DeleteCall job (fst (rDelete r job w))
             # snd (deleteOld r limit n (i + 1) rest (snd (rDelete r job w))))"
  by (simp add: split_def Let_def)

lemma deleteOld_only_deletes: "list_all isDeleteCall (snd (deleteOld r limit n i jobs w))"
  by (induction jobs arbitrary: i w) (simp_all add: snd_deleteOld_Cons del: deleteOld.simps(2))

lemma pruneHistory_only_deletes:
  "list_all isDeleteCall (snd (pruneHistory lib r historyLimit jobs w))"
  by (cases historyLimit) (simp_all add: pruneHistory_def Let_def deleteOld_only_deletes)










lemma pruneHistory_None: "pruneHistory lib r None jobs w = (w, [])"
  by (simp add: pruneHistory_def)





section \<open>One pass of the reconciler\<close>

subsection \<open>Up to the suspend check\<close>

lemma delete_not_start: "isDeleteCall c \<Longrightarrow> \<not> startsJob c"
  by (cases c) simp_all

lemma Spec_withStatus [simp]: "Spec (withStatus lib cronJob c) = Spec cronJob"
  by (simp add: withStatus_def)

lemma observe_continues:
  assumes "rGet r req w = (Inr cronJob0, w1)"
    and "rList r (ReqNamespace req) (ReqName req) w1 = (Inr childJobs, w2)"
    and "rStatusUpdate r (withStatus lib cronJob0 (classify lib childJobs)) w2 = (None, w3)"
  shows "observe lib r req w =
     Inr (withStatus lib cronJob0 (classify lib childJobs),
          activeJobs (classify lib childJobs),
          fst (pruneHistory lib r (SuccessfulJobsHistoryLimit (Spec cronJob0))
                 (successfulJobs (classify lib childJobs))
                 (fst (pruneHistory lib r (FailedJobsHistoryLimit (Spec cronJob0))
                         (failedJobs (classify lib childJobs)) w3))),
          [GetCall req, ListCall (ReqNamespace req) (ReqName req),
           StatusUpdateCall (withStatus lib cronJob0 (classify lib childJobs))]
          @ snd (pruneHistory lib r (FailedJobsHistoryLimit (Spec cronJob0))
                   (failedJobs (classify lib childJobs)) w3)
          @ snd (pruneHistory lib r (SuccessfulJobsHistoryLimit (Spec cronJob0))
                   (successfulJobs (classify lib childJobs))
                   (fst (pruneHistory lib r (FailedJobsHistoryLimit (Spec cronJob0))
                           (failedJobs (classify lib childJobs)) w3))))"
  using assms by (simp add: observe_def Let_def split_def)

lemma observe_Inr_calls:
  assumes "observe lib r req w = Inr (cronJob, active, w5, pruned)"
  shows "\<exists>deletes.
           pruned = [GetCall req, ListCall (ReqNamespace req) (ReqName req),
                     StatusUpdateCall cronJob] @ deletes
           \<and> list_all isDeleteCall deletes"
  using assms
  by (auto simp: observe_def Let_def split_def pruneHistory_only_deletes
      split: prod.splits sum.splits option.splits)

lemma observe_no_start:
  assumes "observe lib r req w = Inr (cronJob, active, w5, pruned)"
  shows "\<forall>c \<in> set pruned. \<not> startsJob c"
proof -
  from observe_Inr_calls [OF assms] obtain deletes where
    "pruned = [GetCall req, ListCall (ReqNamespace req) (ReqName req),
               StatusUpdateCall cronJob] @ deletes" "list_all isDeleteCall deletes"
    by blast
  then show ?thesis by (auto simp: list_all_iff dest: delete_not_start)
qed

lemma Reconcile_sent_status:
  assumes "rGet r req w = (Inr cronJob0, w1)"
    and "rList r (ReqNamespace req) (ReqName req) w1 = (Inr childJobs, w2)"
  shows "\<exists>rest. outCalls (Reconcile lib r req w) =
           [GetCall req, ListCall (ReqNamespace req) (ReqName req),
            StatusUpdateCall (withStatus lib cronJob0 (classify lib childJobs))] @ rest"
  using assms
  by (auto simp: Reconcile_def observe_def Let_def split_def
      split: prod.splits sum.splits option.splits)

lemma scheduleJob_reaches_startJob:
  assumes "rNow r w5 = (now1, w6)"
    and "getNextSchedule lib cronJob now1 = Inr (missedRun, nextRun)"
    and "rNow r w6 = (now2, w7)"
    and "rNow r w7 = (now3, w8)"
    and "\<not> IsZero missedRun"
    and "tooLate r cronJob missedRun w8 = (False, w9)"
  shows "scheduleJob lib r cronJob active w5 =
           startJob lib r cronJob active missedRun
             \<lparr>Requeue = False, RequeueAfter = Sub nextRun now2\<rparr> w9"
  using assms by (simp add: scheduleJob_def Let_def)

lemma Reconcile_reaches_startJob:
  assumes "observe lib r req w = Inr (cronJob, active, w5, pruned)"
    and "Suspend (Spec cronJob) \<noteq> Some True"
    and "rNow r w5 = (now1, w6)"
    and "getNextSchedule lib cronJob now1 = Inr (missedRun, nextRun)"
    and "rNow r w6 = (now2, w7)"
    and "rNow r w7 = (now3, w8)"
    and "\<not> IsZero missedRun"
    and "tooLate r cronJob missedRun w8 = (False, w9)"
  shows "Reconcile lib r req w =
           (startJob lib r cronJob active missedRun
              \<lparr>Requeue = False, RequeueAfter = Sub nextRun now2\<rparr> w9)
           \<lparr>outCalls := pruned @ outCalls (startJob lib r cronJob active missedRun
              \<lparr>Requeue = False, RequeueAfter = Sub nextRun now2\<rparr> w9)\<rparr>"
  using assms(1,2) scheduleJob_reaches_startJob [OF assms(3-8)]
  by (simp add: Reconcile_def Let_def)


subsection \<open>The pruning passes\<close>


subsection \<open>The status\<close>

lemma persisted_sent:
  "persistedLastScheduleTime ([GetCall req, ListCall ns owner, StatusUpdateCall sent] @ rest)
     = Some (LastScheduleTime (Status sent))"
  by simp

lemma Reconcile_persists:
  assumes "rGet r req w = (Inr cronJob0, w1)"
    and "rList r (ReqNamespace req) (ReqName req) w1 = (Inr childJobs, w2)"
  shows "persistedLastScheduleTime (outCalls (Reconcile lib r req w))
           = Some (latest (recoveredTimes lib childJobs))"
proof -
  from Reconcile_sent_status [OF assms] obtain rest where
    "outCalls (Reconcile lib r req w) =
       [GetCall req, ListCall (ReqNamespace req) (ReqName req),
        StatusUpdateCall (withStatus lib cronJob0 (classify lib childJobs))] @ rest"
    by blast
  then show ?thesis
    by (simp only: persisted_sent) (simp add: withStatus_def classify_mostRecentTime)
qed


text \<open>
  Claim C2, as amended. The \<^verbatim>\<open>lastScheduleTime\<close> that a pass sends to the store is the
  latest scheduled time recovered from the jobs that the pass lists, and unset when it
  recovers none. So between two passes on the same object the value does not decrease,
  and does not go from set to unset, whenever a job listed at the later pass carries the
  latest scheduled time that the earlier pass recovered: the other jobs may be gone, and
  every job may have changed otherwise.
\<close>

theorem last_schedule_time_recomputed:
  assumes "rGet r req w = (Inr cronJob0, w1)"
    and "rList r (ReqNamespace req) (ReqName req) w1 = (Inr childJobs, w2)"
    and "rGet r req w' = (Inr cronJob0', w1')"
    and "rList r (ReqNamespace req) (ReqName req) w1' = (Inr childJobs', w2')"
    and "\<forall>t. latest (recoveredTimes lib childJobs) = Some t \<longrightarrow>
           (\<exists>job \<in> set childJobs'. getScheduledTimeForJob lib job = Inr (Some t))"
  shows "persistedLastScheduleTime (outCalls (Reconcile lib r req w))
           = Some (latest (recoveredTimes lib childJobs))
         \<and> persistedLastScheduleTime (outCalls (Reconcile lib r req w'))
             = Some (latest (recoveredTimes lib childJobs'))
         \<and> notEarlier (latest (recoveredTimes lib childJobs'))
              (latest (recoveredTimes lib childJobs))"
  using Reconcile_persists [OF assms(1,2)] Reconcile_persists [OF assms(3,4)]
    recovered_kept [OF assms(5)]
  by simp



subsection \<open>Suspension\<close>



subsection \<open>The concurrency policy\<close>

lemma length_deletedJobs: "list_all isDeleteCall cs \<Longrightarrow> length (deletedJobs cs) = length cs"
  by (induction cs rule: deletedJobs.induct) simp_all

lemma deleteActive_Cons:
  "deleteActive r (activeJob # rest) w =
     (if IgnoreNotFound (fst (rDelete r activeJob w)) \<noteq> None
      then (fst (rDelete r activeJob w), snd (rDelete r activeJob w),
            [DeleteCall activeJob (fst (rDelete r activeJob w))])
      else (fst (deleteActive r rest (snd (rDelete r activeJob w))),
            fst (snd (deleteActive r rest (snd (rDelete r activeJob w)))),
            DeleteCall activeJob (fst (rDelete r activeJob w))
              # snd (snd (deleteActive r rest (snd (rDelete r activeJob w))))))"
  by (simp add: split_def Let_def)

lemma deleteActive_calls:
  "deleteActive r active w = (e, w', deletes) \<Longrightarrow>
     list_all isDeleteCall deletes
     \<and> deletedJobs deletes = take (length deletes) active
     \<and> (\<forall>c \<in> set deletes. failedDelete c \<longrightarrow> c = last deletes \<and> e = answerOf c \<and> e \<noteq> None)
     \<and> ((\<forall>c \<in> set deletes. \<not> failedDelete c) \<longrightarrow> e = None \<and> deletedJobs deletes = active)"
proof (induction active arbitrary: w e w' deletes)
  case Nil
  then show ?case by simp
next
  case (Cons activeJob rest)
  let ?a = "fst (rDelete r activeJob w)" and ?w1 = "snd (rDelete r activeJob w)"
  show ?case
  proof (cases "IgnoreNotFound ?a \<noteq> None")
    case True
    with Cons.prems have "deletes = [DeleteCall activeJob ?a]" "e = ?a"
      by (auto simp: deleteActive_Cons simp del: deleteActive.simps(2))
    with True show ?thesis by (auto simp: IgnoreNotFound_def split: if_splits)
  next
    case False
    obtain e2 w2 ds where rec: "deleteActive r rest ?w1 = (e2, w2, ds)"
      by (cases "deleteActive r rest ?w1") auto
    with False Cons.prems have d: "deletes = DeleteCall activeJob ?a # ds" and e: "e = e2"
      by (auto simp: deleteActive_Cons simp del: deleteActive.simps(2))
    from Cons.IH [OF rec] False show ?thesis
      unfolding d e by (auto dest: length_deletedJobs)
  qed
qed

text \<open>
  Claim C7. In a pass that gets past the status update and the suspend check, finds a
  missed run and does not find it too late: when the policy is \<^verbatim>\<open>Forbid\<close> and the
  active jobs are not empty, the pass makes no call after the pruning, so neither the
  constructor nor create is called, and it returns \<^verbatim>\<open>RequeueAfter\<close> the next run minus
  the clock reading taken for it, with no error.
\<close>

theorem forbid_skips_run:
  assumes "observe lib r req w = Inr (cronJob, active, w5, pruned)"
    and "Suspend (Spec cronJob) \<noteq> Some True"
    and "rNow r w5 = (now1, w6)"
    and "getNextSchedule lib cronJob now1 = Inr (missedRun, nextRun)"
    and "rNow r w6 = (now2, w7)"
    and "rNow r w7 = (now3, w8)"
    and "\<not> IsZero missedRun"
    and "tooLate r cronJob missedRun w8 = (False, w9)"
    and "ConcurrencyPolicy (Spec cronJob) = ForbidConcurrent"
    and "active \<noteq> []"
  shows "Reconcile lib r req w =
           \<lparr>outResult = \<lparr>Requeue = False, RequeueAfter = Sub nextRun now2\<rparr>,
            outError = None, outWorld = w9, outCalls = pruned\<rparr>
         \<and> (\<forall>c \<in> set (outCalls (Reconcile lib r req w)). \<not> startsJob c)"
proof -
  have "Reconcile lib r req w =
           \<lparr>outResult = \<lparr>Requeue = False, RequeueAfter = Sub nextRun now2\<rparr>,
            outError = None, outWorld = w9, outCalls = pruned\<rparr>"
    using assms(9,10) by (simp add: Reconcile_reaches_startJob [OF assms(1-8)] startJob_def)
  with observe_no_start [OF assms(1)] show ?thesis by simp
qed


text \<open>
  Claim C8, as amended. In a pass that gets past the status update and the suspend check,
  finds a missed run and does not find it too late, with the policy \<^verbatim>\<open>Replace\<close>: the
  calls after the pruning begin with delete calls for the active jobs, in order, and
  neither the constructor nor create is called before the last of them. A delete whose
  answer is an error other than not-found is the last call of the pass, which returns
  that error and the empty result, with no construction and no creation. When no delete
  answers such an error (each succeeds or answers not-found), every active job has its
  delete call before the constructor is called.
\<close>

theorem replace_deletes_active_first:
  assumes "observe lib r req w = Inr (cronJob, active, w5, pruned)"
    and "Suspend (Spec cronJob) \<noteq> Some True"
    and "rNow r w5 = (now1, w6)"
    and "getNextSchedule lib cronJob now1 = Inr (missedRun, nextRun)"
    and "rNow r w6 = (now2, w7)"
    and "rNow r w7 = (now3, w8)"
    and "\<not> IsZero missedRun"
    and "tooLate r cronJob missedRun w8 = (False, w9)"
    and "ConcurrencyPolicy (Spec cronJob) = ReplaceConcurrent"
  shows "let out = Reconcile lib r req w;
             deletes = snd (snd (deleteActive r active w9))
         in list_all isDeleteCall deletes
            \<and> deletedJobs deletes = take (length deletes) active
            \<and> (\<exists>rest. outCalls out = pruned @ deletes @ rest
                  \<and> (\<forall>c \<in> set (pruned @ deletes). \<not> startsJob c))
            \<and> (\<forall>c \<in> set deletes. failedDelete c \<longrightarrow>
                  c = last deletes \<and> outCalls out = pruned @ deletes
                  \<and> outError out = answerOf c \<and> outError out \<noteq> None
                  \<and> outResult out = emptyResult)
            \<and> ((\<forall>c \<in> set deletes. \<not> failedDelete c) \<longrightarrow>
                  deletedJobs deletes = active
                  \<and> (\<exists>rest. outCalls out = pruned @ deletes @ ConstructCall missedRun # rest))"
proof -
  let ?res = "\<lparr>Requeue = False, RequeueAfter = Sub nextRun now2\<rparr>"
  let ?out = "Reconcile lib r req w"
  obtain e w10 deletes where da: "deleteActive r active w9 = (e, w10, deletes)"
    by (cases "deleteActive r active w9") auto
  note props = deleteActive_calls [OF da]
  have policy: "ConcurrencyPolicy (Spec cronJob) \<noteq> ForbidConcurrent"
    by (simp add: assms(9) ForbidConcurrent_def ReplaceConcurrent_def)
  note reach = Reconcile_reaches_startJob [OF assms(1-8)]
  have quiet: "\<forall>c \<in> set (pruned @ deletes). \<not> startsJob c"
    using observe_no_start [OF assms(1)] props
    by (auto simp: list_all_iff dest: delete_not_start)
  have failed: "outCalls ?out = pruned @ deletes \<and> outError ?out = e
      \<and> outResult ?out = emptyResult" if "e \<noteq> None"
    using that policy by (auto simp: reach startJob_def assms(9) da)
  have fine: "\<exists>rest. outCalls ?out = pruned @ deletes @ ConstructCall missedRun # rest"
    if "e = None"
    using that policy
    by (auto simp: reach startJob_def assms(9) da split: sum.splits prod.splits option.splits)
  have some: "\<exists>rest. outCalls ?out = pruned @ deletes @ rest"
    using failed fine by (cases e) auto
  show ?thesis
    unfolding Let_def da snd_conv
    using props quiet failed fine some by metis
qed

section \<open>Passes on the fixtures\<close>

subsection \<open>The store and the jobs\<close>


lemma store_get:
  "Name cronJob = ''demo'' \<Longrightarrow> Namespace cronJob = ''default'' \<Longrightarrow>
   rGet storeReconciler demoRequest (demoStore cronJob jobs now answer)
     = (Inr cronJob, demoStore cronJob jobs now answer)"
  by (simp add: storeReconciler_def demoStore_def demoRequest_def)

lemma store_list:
  "\<forall>job \<in> set jobs. \<exists>name started finished secs. job = demoJob name started finished secs \<Longrightarrow>
   rList storeReconciler (ReqNamespace demoRequest) (ReqName demoRequest)
     (demoStore cronJob jobs now answer)
     = (Inr jobs, demoStore cronJob jobs now answer)"
proof -
  assume a: "\<forall>job \<in> set jobs. \<exists>name started finished secs. job = demoJob name started finished secs"
  have "filter (\<lambda>job. JobNamespace job = ''default''
            \<and> list_ex (\<lambda>ref. Controller ref \<and> OwnerName ref = ''demo'')
                 (JobOwnerReferences job)) jobs = jobs"
    unfolding filter_id_conv using a by (auto simp: demoJob_def)
  then show ?thesis
    by (simp add: storeReconciler_def demoStore_def demoRequest_def)
qed

lemma store_update:
  "rStatusUpdate storeReconciler (withStatus lib cronJob c) (demoStore cronJob jobs now answer)
     = (None, demoStore (withStatus lib cronJob c) jobs now answer)"
  by (simp add: storeReconciler_def demoStore_def withStatus_def)

lemma store_now:
  "rNow storeReconciler (demoStore cronJob jobs now answer)
     = (now, demoStore cronJob jobs now answer)"
  by (simp add: storeReconciler_def demoStore_def)

lemma store_delete_answer:
  "rDelete storeReconciler job (demoStore cronJob jobs now (Some e))
     = (Some e, demoStore cronJob jobs now (Some e))"
  by (simp add: storeReconciler_def demoStore_def)

lemma store_delete:
  "rDelete storeReconciler job (demoStore cronJob jobs now None)
     = (if list_ex (\<lambda>j. JobName j = JobName job) jobs
        then (None, demoStore cronJob (filter (\<lambda>j. JobName j \<noteq> JobName job) jobs) now None)
        else (Some NotFound, demoStore cronJob jobs now None))"
  by (simp add: storeReconciler_def demoStore_def)

lemma store_create:
  "rCreate storeReconciler job (demoStore cronJob jobs now answer)
     = (if list_ex (\<lambda>j. JobName j = JobName job) jobs
        then (Some (Failure ''already exists''), demoStore cronJob jobs now answer)
        else (None, demoStore cronJob (jobs @ [job]) now answer))"
  by (simp add: storeReconciler_def demoStore_def)

lemma no_deadline_not_late:
  "StartingDeadlineSeconds (Spec cronJob) = None \<Longrightarrow> tooLate r cronJob missedRun w = (False, w)"
  by (simp add: tooLate_def)

lemma parse_format_60: "parseInt (formatInt 60) = Some 60"
  by code_simp

lemma parse_format_120: "parseInt (formatInt 120) = Some 120"
  by code_simp

lemma scheduled_demoJob:
  "parseInt (formatInt secs) = Some secs \<Longrightarrow>
   getScheduledTimeForJob demoLib (demoJob name started finished secs)
     = Inr (Some (secs * 1000000000))"
  by (simp add: demoLib_def demoJob_def)

lemma finished_demoJob:
  "isJobFinished demoLib (demoJob name started [] secs) = (False, [])"
  "isJobFinished demoLib (demoJob name started ''Failed'' secs) = (True, ''Failed'')"
  "isJobFinished demoLib (demoJob name started ''Complete'' secs) = (True, ''Complete'')"
  by (simp_all add: demoLib_def demoJob_def JobComplete_def JobFailed_def)


lemma identity_fixtures:
  "Name (policyCronJob policy) = ''demo''" "Namespace (policyCronJob policy) = ''default''"
  "Name suspendedCronJob = ''demo''" "Namespace suspendedCronJob = ''default''"
  "Name (limitCronJob limit) = ''demo''" "Namespace (limitCronJob limit) = ''default''"
  by (simp_all add: policyCronJob_def suspendedCronJob_def limitCronJob_def demoCronJob_def)

lemma spec_policyCronJob:
  "Schedule (Spec (policyCronJob policy)) = ''* * * * *''"
  "StartingDeadlineSeconds (Spec (policyCronJob policy)) = None"
  "ConcurrencyPolicy (Spec (policyCronJob policy)) = policy"
  "Suspend (Spec (policyCronJob policy)) = None"
  "SuccessfulJobsHistoryLimit (Spec (policyCronJob policy)) = None"
  "FailedJobsHistoryLimit (Spec (policyCronJob policy)) = None"
  "CreationTimestamp (policyCronJob policy) = 0"
  by (simp_all add: policyCronJob_def demoCronJob_def)







subsection \<open>One running job\<close>

text \<open>The pass on a store with one running job, scheduled at second 60, read at second
  130: what \<open>observe\<close> returns and what the schedule gives.\<close>

lemma running_observe:
  "observe demoLib storeReconciler demoRequest
     (demoStore (policyCronJob policy) [demoJob ''demo-60'' (Some 61000000000) [] 60]
        130000000000 answer)
   = Inr (withStatus demoLib (policyCronJob policy)
            (classify demoLib [demoJob ''demo-60'' (Some 61000000000) [] 60]),
          [demoJob ''demo-60'' (Some 61000000000) [] 60],
          demoStore (withStatus demoLib (policyCronJob policy)
            (classify demoLib [demoJob ''demo-60'' (Some 61000000000) [] 60]))
            [demoJob ''demo-60'' (Some 61000000000) [] 60] 130000000000 answer,
          [GetCall demoRequest, ListCall ''default'' ''demo'',
           StatusUpdateCall (withStatus demoLib (policyCronJob policy)
             (classify demoLib [demoJob ''demo-60'' (Some 61000000000) [] 60]))])"
proof -
  have lst: "rList storeReconciler (ReqNamespace demoRequest) (ReqName demoRequest)
      (demoStore (policyCronJob policy) [demoJob ''demo-60'' (Some 61000000000) [] 60]
         130000000000 answer)
    = (Inr [demoJob ''demo-60'' (Some 61000000000) [] 60],
       demoStore (policyCronJob policy) [demoJob ''demo-60'' (Some 61000000000) [] 60]
         130000000000 answer)"
    by (rule store_list) auto
  show ?thesis
    unfolding observe_continues [OF store_get [OF identity_fixtures(1,2)] lst store_update]
    by (simp add: spec_policyCronJob pruneHistory_None classify_activeJobs finished_demoJob
        demoRequest_def)
qed

lemma running_schedule:
  "getNextSchedule demoLib
     (withStatus demoLib (policyCronJob policy)
        (classify demoLib [demoJob ''demo-60'' (Some 61000000000) [] 60]))
     130000000000
   = Inr (120000000000, 180000000000)"
proof -
  let ?sent = "withStatus demoLib (policyCronJob policy)
        (classify demoLib [demoJob ''demo-60'' (Some 61000000000) [] 60])"
  have last: "LastScheduleTime (Status ?sent) = Some 60000000000"
    by (simp add: withStatus_def classify_mostRecentTime scheduled_demoJob parse_format_60)
  have e: "earliestTime ?sent 130000000000 = 60000000000"
    by (simp add: earliestTime_def boundTime_def last spec_policyCronJob)
  show ?thesis
    by (simp add: getNextSchedule_def spec_policyCronJob parse_demo e After_def everyMinute_def
        missedStarts.simps)
qed


text \<open>Policy \<^verbatim>\<open>Forbid\<close>: the missed run of second 120 is skipped, and the pass asks to be
  run again in 50 seconds.\<close>

theorem forbid_skips_run_witness:
  "ConcurrencyPolicy (Spec (policyCronJob ForbidConcurrent)) = ForbidConcurrent
   \<and> Reconcile demoLib storeReconciler demoRequest
       (demoStore (policyCronJob ForbidConcurrent)
          [demoJob ''demo-60'' (Some 61000000000) [] 60] 130000000000 None)
     = \<lparr>outResult = \<lparr>Requeue = False, RequeueAfter = 50000000000\<rparr>, outError = None,
        outWorld = demoStore (withStatus demoLib (policyCronJob ForbidConcurrent)
            (classify demoLib [demoJob ''demo-60'' (Some 61000000000) [] 60]))
            [demoJob ''demo-60'' (Some 61000000000) [] 60] 130000000000 None,
        outCalls = [GetCall demoRequest, ListCall ''default'' ''demo'',
           StatusUpdateCall (withStatus demoLib (policyCronJob ForbidConcurrent)
             (classify demoLib [demoJob ''demo-60'' (Some 61000000000) [] 60]))]\<rparr>"
proof -
  let ?sent = "withStatus demoLib (policyCronJob ForbidConcurrent)
        (classify demoLib [demoJob ''demo-60'' (Some 61000000000) [] 60])"
  have policy: "ConcurrencyPolicy (Spec ?sent) = ForbidConcurrent"
    and awake: "Suspend (Spec ?sent) \<noteq> Some True"
    and late: "tooLate storeReconciler ?sent 120000000000
        (demoStore ?sent [demoJob ''demo-60'' (Some 61000000000) [] 60] 130000000000 None)
      = (False, demoStore ?sent [demoJob ''demo-60'' (Some 61000000000) [] 60] 130000000000 None)"
    by (simp_all add: spec_policyCronJob no_deadline_not_late)
  have missed: "\<not> IsZero 120000000000"
    by (simp add: IsZero_def zeroTime_def)
  have delay: "Sub 180000000000 130000000000 = 50000000000"
    by (simp add: Sub_def)
  from forbid_skips_run [OF running_observe awake store_now running_schedule store_now
      store_now missed late policy]
  show ?thesis by (simp add: delay spec_policyCronJob)
qed

text \<open>Policy \<^verbatim>\<open>Replace\<close> on a store whose deletes fail: the pass ends with the error
  after the one delete call.\<close>

theorem replace_deletes_active_first_witness:
  "ConcurrencyPolicy (Spec (policyCronJob ReplaceConcurrent)) = ReplaceConcurrent
   \<and> outError (Reconcile demoLib storeReconciler demoRequest
       (demoStore (policyCronJob ReplaceConcurrent)
          [demoJob ''demo-60'' (Some 61000000000) [] 60] 130000000000
          (Some (Failure ''unavailable''))))
     = Some (Failure ''unavailable'')
   \<and> outResult (Reconcile demoLib storeReconciler demoRequest
       (demoStore (policyCronJob ReplaceConcurrent)
          [demoJob ''demo-60'' (Some 61000000000) [] 60] 130000000000
          (Some (Failure ''unavailable''))))
     = emptyResult
   \<and> outCalls (Reconcile demoLib storeReconciler demoRequest
       (demoStore (policyCronJob ReplaceConcurrent)
          [demoJob ''demo-60'' (Some 61000000000) [] 60] 130000000000
          (Some (Failure ''unavailable''))))
     = [GetCall demoRequest, ListCall ''default'' ''demo'',
        StatusUpdateCall (withStatus demoLib (policyCronJob ReplaceConcurrent)
          (classify demoLib [demoJob ''demo-60'' (Some 61000000000) [] 60])),
        DeleteCall (demoJob ''demo-60'' (Some 61000000000) [] 60)
          (Some (Failure ''unavailable''))]"
proof -
  let ?job = "demoJob ''demo-60'' (Some 61000000000) [] 60"
  let ?sent = "withStatus demoLib (policyCronJob ReplaceConcurrent) (classify demoLib [?job])"
  let ?store = "demoStore ?sent [?job] 130000000000 (Some (Failure ''unavailable''))"
  have policy: "ConcurrencyPolicy (Spec ?sent) = ReplaceConcurrent"
    and awake: "Suspend (Spec ?sent) \<noteq> Some True"
    and late: "tooLate storeReconciler ?sent 120000000000 ?store = (False, ?store)"
    by (simp_all add: spec_policyCronJob no_deadline_not_late)
  have missed: "\<not> IsZero 120000000000"
    by (simp add: IsZero_def zeroTime_def)
  have deletes: "deleteActive storeReconciler [?job] ?store
      = (Some (Failure ''unavailable''), ?store,
         [DeleteCall ?job (Some (Failure ''unavailable''))])"
    by (simp add: store_delete_answer IgnoreNotFound_def)
  from replace_deletes_active_first [OF running_observe awake store_now running_schedule
      store_now store_now missed late policy]
  show ?thesis
    by (simp add: Let_def deletes IgnoreNotFound_def spec_policyCronJob del: deleteActive.simps)
qed

lemma formatInt_120: "formatInt 120 = ''120''"
  by code_simp




text \<open>Claim C8 as stated fails: with the policy \<^verbatim>\<open>Replace\<close> and a store that answers
  not-found to the delete of the active job, a delete has failed, and yet the pass does
  not stop with an error: it calls the constructor and creates the job.\<close>

theorem replace_deletes_active_first_counterexample:
  "outError (Reconcile demoLib storeReconciler demoRequest
       (demoStore (policyCronJob ReplaceConcurrent)
          [demoJob ''demo-60'' (Some 61000000000) [] 60] 130000000000 (Some NotFound)))
     = None
   \<and> map answerOf (outCalls (Reconcile demoLib storeReconciler demoRequest
       (demoStore (policyCronJob ReplaceConcurrent)
          [demoJob ''demo-60'' (Some 61000000000) [] 60] 130000000000 (Some NotFound))))
     = [None, None, None, Some NotFound, None, None]
   \<and> map startsJob (outCalls (Reconcile demoLib storeReconciler demoRequest
       (demoStore (policyCronJob ReplaceConcurrent)
          [demoJob ''demo-60'' (Some 61000000000) [] 60] 130000000000 (Some NotFound))))
     = [False, False, False, False, True, True]"
proof -
  let ?job = "demoJob ''demo-60'' (Some 61000000000) [] 60"
  let ?sent = "withStatus demoLib (policyCronJob ReplaceConcurrent) (classify demoLib [?job])"
  let ?store = "demoStore ?sent [?job] 130000000000 (Some NotFound)"
  have awake: "Suspend (Spec ?sent) \<noteq> Some True"
    and late: "tooLate storeReconciler ?sent 120000000000 ?store = (False, ?store)"
    by (simp_all add: spec_policyCronJob no_deadline_not_late)
  have missed: "\<not> IsZero 120000000000"
    by (simp add: IsZero_def zeroTime_def)
  have deletes: "deleteActive storeReconciler [?job] ?store
      = (None, ?store, [DeleteCall ?job (Some NotFound)])"
    by (simp add: store_delete_answer IgnoreNotFound_def)
  have policy: "ReplaceConcurrent \<noteq> ForbidConcurrent"
    by (simp add: ForbidConcurrent_def ReplaceConcurrent_def)
  from constructed_returns [OF gvk_demo] obtain new
    where built: "constructJobForCronJob demoLib ?sent 120000000000 = Inr new"
    by blast
  have name: "JobName new = ''demo-120''"
    using constructed_job(1) [OF built]
    by (simp add: Unix_def formatInt_120 withStatus_def policyCronJob_def demoCronJob_def)
  have created: "rCreate storeReconciler new ?store
      = (None, demoStore ?sent ([?job] @ [new]) 130000000000 (Some NotFound))"
    by (simp add: store_create name demoJob_def)
  have start: "startJob demoLib storeReconciler ?sent [?job] 120000000000
        \<lparr>Requeue = False, RequeueAfter = Sub 180000000000 130000000000\<rparr> ?store
      = \<lparr>outResult = \<lparr>Requeue = False, RequeueAfter = Sub 180000000000 130000000000\<rparr>,
         outError = None,
         outWorld = demoStore ?sent ([?job] @ [new]) 130000000000 (Some NotFound),
         outCalls = [DeleteCall ?job (Some NotFound), ConstructCall 120000000000,
                     CreateCall new]\<rparr>"
    by (simp add: startJob_def spec_policyCronJob policy deletes built created
        del: deleteActive.simps)
  show ?thesis
    unfolding Reconcile_reaches_startJob [OF running_observe awake store_now running_schedule
      store_now store_now missed late] start
    by simp
qed


subsection \<open>A suspended CronJob\<close>



subsection \<open>Three failed jobs, one to keep\<close>

lemma spec_limitCronJob:
  "Schedule (Spec (limitCronJob limit)) = ''* * * * *''"
  "StartingDeadlineSeconds (Spec (limitCronJob limit)) = None"
  "Suspend (Spec (limitCronJob limit)) = None"
  "SuccessfulJobsHistoryLimit (Spec (limitCronJob limit)) = Some limit"
  "FailedJobsHistoryLimit (Spec (limitCronJob limit)) = Some limit"
  "CreationTimestamp (limitCronJob limit) = 0"
  by (simp_all add: limitCronJob_def demoCronJob_def)




subsection \<open>The last schedule time\<close>

lemma parse_format_180: "parseInt (formatInt 180) = Some 180"
  by code_simp

text \<open>At the later pass the oldest job is gone, the job scheduled at second 120 has
  finished, and a job scheduled at second 180 has joined it.\<close>

theorem last_schedule_time_recomputed_witness:
  "persistedLastScheduleTime (outCalls (Reconcile demoLib storeReconciler demoRequest
       (demoStore (policyCronJob AllowConcurrent)
          [demoJob ''demo-60'' (Some 61000000000) ''Complete'' 60,
           demoJob ''demo-120'' (Some 121000000000) [] 120] 130000000000 None)))
     = Some (Some 120000000000)
   \<and> getScheduledTimeForJob demoLib (demoJob ''demo-120'' (Some 121000000000) ''Complete'' 120)
       = Inr (Some 120000000000)
   \<and> persistedLastScheduleTime (outCalls (Reconcile demoLib storeReconciler demoRequest
       (demoStore (policyCronJob AllowConcurrent)
          [demoJob ''demo-120'' (Some 121000000000) ''Complete'' 120,
           demoJob ''demo-180'' (Some 181000000000) [] 180] 190000000000 None)))
     = Some (Some 180000000000)"
proof -
  let ?one = "[demoJob ''demo-60'' (Some 61000000000) ''Complete'' 60,
               demoJob ''demo-120'' (Some 121000000000) [] 120]"
  let ?two = "[demoJob ''demo-120'' (Some 121000000000) ''Complete'' 120,
               demoJob ''demo-180'' (Some 181000000000) [] 180]"
  have lst1: "rList storeReconciler (ReqNamespace demoRequest) (ReqName demoRequest)
      (demoStore (policyCronJob AllowConcurrent) ?one 130000000000 None)
    = (Inr ?one, demoStore (policyCronJob AllowConcurrent) ?one 130000000000 None)"
    by (rule store_list) auto
  have lst2: "rList storeReconciler (ReqNamespace demoRequest) (ReqName demoRequest)
      (demoStore (policyCronJob AllowConcurrent) ?two 190000000000 None)
    = (Inr ?two, demoStore (policyCronJob AllowConcurrent) ?two 190000000000 None)"
    by (rule store_list) auto
  have kept: "getScheduledTimeForJob demoLib
      (demoJob ''demo-120'' (Some 121000000000) ''Complete'' 120) = Inr (Some 120000000000)"
    by (simp add: scheduled_demoJob parse_format_120)
  have earlier: "latest (recoveredTimes demoLib ?one) = Some 120000000000"
    by (simp add: scheduled_demoJob parse_format_60 parse_format_120)
  have still: "\<forall>t. latest (recoveredTimes demoLib ?one) = Some t \<longrightarrow>
      (\<exists>job \<in> set ?two. getScheduledTimeForJob demoLib job = Inr (Some t))"
    unfolding earlier using kept by simp
  from last_schedule_time_recomputed [OF store_get [OF identity_fixtures(1,2)] lst1
      store_get [OF identity_fixtures(1,2)] lst2 still] kept
  show ?thesis
    by (simp add: scheduled_demoJob parse_format_60 parse_format_120 parse_format_180)
qed

text \<open>One finished job, scheduled at second 60, a history limit of 0, read at second 70:
  the pass deletes the job and finds no missed run.\<close>

lemma pruned_pass:
  "outWorld (Reconcile demoLib storeReconciler demoRequest
       (demoStore (limitCronJob 0)
          [demoJob ''demo-60'' (Some 61000000000) ''Complete'' 60] 70000000000 None))
   = demoStore (withStatus demoLib (limitCronJob 0)
        (classify demoLib [demoJob ''demo-60'' (Some 61000000000) ''Complete'' 60]))
       [] 70000000000 None"
proof -
  let ?job = "demoJob ''demo-60'' (Some 61000000000) ''Complete'' 60"
  let ?sent = "withStatus demoLib (limitCronJob 0) (classify demoLib [?job])"
  let ?store = "demoStore (limitCronJob 0) [?job] 70000000000 None"
  let ?after = "demoStore ?sent [] 70000000000 None"
  have lst: "rList storeReconciler (ReqNamespace demoRequest) (ReqName demoRequest) ?store
    = (Inr [?job], ?store)"
    by (rule store_list) auto
  have failed: "failedJobs (classify demoLib [?job]) = []"
    and successful: "successfulJobs (classify demoLib [?job]) = [?job]"
    by (simp_all add: classify_failedJobs classify_successfulJobs finished_demoJob
        JobFailed_def JobComplete_def)
  have none: "pruneHistory demoLib storeReconciler (Some 0) []
      (demoStore ?sent [?job] 70000000000 None) = (demoStore ?sent [?job] 70000000000 None, [])"
    by (simp add: pruneHistory_def demoLib_def insertionSort_def)
  have one: "pruneHistory demoLib storeReconciler (Some 0) [?job]
      (demoStore ?sent [?job] 70000000000 None) = (?after, [DeleteCall ?job None])"
    by (simp add: pruneHistory_def demoLib_def insertionSort_def store_delete word_sle_eq)
  have obs: "observe demoLib storeReconciler demoRequest ?store
    = Inr (?sent, activeJobs (classify demoLib [?job]), ?after,
           [GetCall demoRequest, ListCall (ReqNamespace demoRequest) (ReqName demoRequest),
            StatusUpdateCall ?sent] @ [] @ [DeleteCall ?job None])"
    unfolding observe_continues [OF store_get [OF identity_fixtures(5,6)] lst store_update]
    by (simp add: spec_limitCronJob failed successful none one)
  have last: "LastScheduleTime (Status ?sent) = Some 60000000000"
    by (simp add: withStatus_def classify_mostRecentTime scheduled_demoJob parse_format_60)
  have e: "earliestTime ?sent 70000000000 = 60000000000"
    by (simp add: earliestTime_def boundTime_def last spec_limitCronJob)
  have sch: "getNextSchedule demoLib ?sent 70000000000 = Inr (zeroTime, 120000000000)"
    by (simp add: getNextSchedule_def spec_limitCronJob parse_demo e After_def everyMinute_def
        missedStarts.simps)
  show ?thesis
    by (simp add: Reconcile_def obs spec_limitCronJob scheduleJob_def store_now sch IsZero_def)
qed


text \<open>Claim C2 as stated fails: nothing but the controller touches the store, the first
  pass sends second 60 and prunes the only job, and the second pass, on the store the
  first one left, sends an unset \<^verbatim>\<open>lastScheduleTime\<close>.\<close>

theorem last_schedule_time_recomputed_counterexample:
  "persistedLastScheduleTime (outCalls (Reconcile demoLib storeReconciler demoRequest
       (demoStore (limitCronJob 0)
          [demoJob ''demo-60'' (Some 61000000000) ''Complete'' 60] 70000000000 None)))
     = Some (Some 60000000000)
   \<and> persistedLastScheduleTime (outCalls (Reconcile demoLib storeReconciler demoRequest
       (outWorld (Reconcile demoLib storeReconciler demoRequest
          (demoStore (limitCronJob 0)
             [demoJob ''demo-60'' (Some 61000000000) ''Complete'' 60] 70000000000 None)))))
     = Some None"
proof -
  let ?job = "demoJob ''demo-60'' (Some 61000000000) ''Complete'' 60"
  let ?sent = "withStatus demoLib (limitCronJob 0) (classify demoLib [?job])"
  let ?store = "demoStore (limitCronJob 0) [?job] 70000000000 None"
  let ?after = "demoStore ?sent [] 70000000000 None"
  have lst: "rList storeReconciler (ReqNamespace demoRequest) (ReqName demoRequest) ?store
    = (Inr [?job], ?store)"
    by (rule store_list) auto
  have first: "persistedLastScheduleTime
      (outCalls (Reconcile demoLib storeReconciler demoRequest ?store))
    = Some (Some 60000000000)"
    unfolding Reconcile_persists [OF store_get [OF identity_fixtures(5,6)] lst]
    by (simp add: scheduled_demoJob parse_format_60)
  have name: "Name ?sent = ''demo''" "Namespace ?sent = ''default''"
    by (simp_all add: withStatus_def identity_fixtures)
  have lst2: "rList storeReconciler (ReqNamespace demoRequest) (ReqName demoRequest) ?after
    = (Inr [], ?after)"
    by (rule store_list) simp
  have second: "persistedLastScheduleTime
      (outCalls (Reconcile demoLib storeReconciler demoRequest ?after))
    = Some None"
    unfolding Reconcile_persists [OF store_get [OF name] lst2]
    by simp
  from first second show ?thesis
    unfolding pruned_pass by (rule conjI)
qed

end
